theory Spec2Isabelle
  imports Main "HOL-Library.Log_Nat"
begin

section \<open>File handles: \<open>src/main/utils/withFileHandle.ts\<close>\<close>

text \<open>
  The calls a run of \<open>withFileHandle\<close> makes on its collaborators, in order.
  \<open>File.createFromPath\<close> either throws or returns a handle; the callback either
  throws (or returns a rejected promise, which \<open>await\<close> turns into a throw) or
  returns a value; \<open>file.dispose()\<close> may itself throw, which the inner
  \<open>try\<close> catches and logs as a warning.
\<close>

datatype 'f fh_call =
    CreateFromPath string
  | CallbackCall 'f
  | DisposeCall 'f
  | LoggerErrorFH
  | LoggerWarnFH

text \<open>The \<open>finally\<close> block once \<open>file\<close> is assigned.\<close>

definition fh_finally :: "('f \<Rightarrow> 'e option) \<Rightarrow> 'f \<Rightarrow> 'f fh_call list" where
  "fh_finally dispose file =
     DisposeCall file # (case dispose file of None \<Rightarrow> [] | Some disposeError \<Rightarrow> [LoggerWarnFH])"

definition withFileHandle ::
  "(string \<Rightarrow> 'e + 'f) \<Rightarrow> ('f \<Rightarrow> 'e option) \<Rightarrow> string \<Rightarrow> ('f \<Rightarrow> 'e + 'a)
     \<Rightarrow> ('e + 'a) \<times> 'f fh_call list" where
  "withFileHandle createFromPath dispose filePath callback =
     (case createFromPath filePath of
        Inl error \<Rightarrow> (Inl error, [CreateFromPath filePath, LoggerErrorFH])
      | Inr file \<Rightarrow>
          (case callback file of
             Inl error \<Rightarrow>
               (Inl error,
                [CreateFromPath filePath, CallbackCall file, LoggerErrorFH] @ fh_finally dispose file)
           | Inr result \<Rightarrow>
               (Inr result,
                [CreateFromPath filePath, CallbackCall file] @ fh_finally dispose file)))"

definition withFileHandleSync ::
  "(string \<Rightarrow> 'e + 'f) \<Rightarrow> ('f \<Rightarrow> 'e option) \<Rightarrow> string \<Rightarrow> ('f \<Rightarrow> 'e + 'a)
     \<Rightarrow> ('e + 'a) \<times> 'f fh_call list" where
  "withFileHandleSync createFromPath dispose filePath callback =
     (case createFromPath filePath of
        Inl error \<Rightarrow> (Inl error, [CreateFromPath filePath, LoggerErrorFH])
      | Inr file \<Rightarrow>
          (case callback file of
             Inl error \<Rightarrow>
               (Inl error,
                [CreateFromPath filePath, CallbackCall file, LoggerErrorFH] @ fh_finally dispose file)
           | Inr result \<Rightarrow>
               (Inr result,
                [CreateFromPath filePath, CallbackCall file] @ fh_finally dispose file)))"

fun is_dispose :: "'f fh_call \<Rightarrow> bool" where
  "is_dispose (DisposeCall f) = True"
| "is_dispose _ = False"

definition dispose_count :: "'f fh_call list \<Rightarrow> nat" where
  "dispose_count calls = length (filter is_dispose calls)"

text \<open>
  C9. Whenever opening the file succeeds, \<open>withFileHandle\<close> and
  \<open>withFileHandleSync\<close> call \<open>file.dispose()\<close> exactly once, whether the
  callback returns or throws (and whether or not dispose itself throws); when the open
  fails, dispose is not called at all.
\<close>

theorem withFileHandle_dispose_once:
  "dispose_count (snd (withFileHandle createFromPath dispose filePath callback))
     = (if isl (createFromPath filePath) then 0 else 1)
   \<and> dispose_count (snd (withFileHandleSync createFromPath dispose filePath callback))
     = (if isl (createFromPath filePath) then 0 else 1)"
proof -
  have a: "dispose_count (snd (withFileHandle createFromPath dispose filePath callback))
     = (if isl (createFromPath filePath) then 0 else 1)"
    by (simp add: withFileHandle_def dispose_count_def fh_finally_def
          split: sum.splits option.splits)
  have b: "dispose_count (snd (withFileHandleSync createFromPath dispose filePath callback))
     = (if isl (createFromPath filePath) then 0 else 1)"
    by (simp add: withFileHandleSync_def dispose_count_def fh_finally_def
          split: sum.splits option.splits)
  from a b show ?thesis by simp
qed

section \<open>Tag writer sync queue: \<open>savePendingMetadataUpdates\<close>\<close>

text \<open>
  \<open>TagData\<close> is the pending edit of one song; a field that is \<open>undefined\<close> in
  the source is \<open>None\<close>. The artwork is a \<open>Picture\<close> object, kept abstract as a
  string.
\<close>

record TagData =
  title :: "string option"
  artists :: "string list option"
  album :: "string option"
  genres :: "string list option"
  composer :: "string option"
  trackNumber :: "nat option"
  year :: "nat option"
  artwork :: "string option"
  lyrics :: "string option"

record PendingMetadataUpdates =
  songPath :: string
  tags :: TagData
  sendUpdatedData :: "bool option"
  isKnownSource :: "bool option"

text \<open>The part of a taglib \<open>File\<close> the flush writes: \<open>file.tag\<close>.\<close>

record FileTag =
  tag_title :: string
  tag_performers :: "string list"
  tag_album :: string
  tag_genres :: "string list"
  tag_composers :: "string list"
  tag_track :: nat
  tag_year :: nat
  tag_pictures :: "string list"
  tag_lyrics :: string

record File =
  file_path :: string
  file_tag :: FileTag

text \<open>
  The assignments of the callback handed to \<open>withFileHandle\<close>. JavaScript
  truthiness: a string field is written only when it is present and non-empty, an array
  whenever it is present, the two numbers whenever they are not \<open>undefined\<close>.
\<close>

definition truthy_string :: "string option \<Rightarrow> bool" where
  "truthy_string v = (case v of None \<Rightarrow> False | Some s \<Rightarrow> s \<noteq> [])"

definition writeTags :: "TagData \<Rightarrow> FileTag \<Rightarrow> FileTag" where
  "writeTags tg t0 =
     (let t1 = (if truthy_string (title tg) then t0\<lparr>tag_title := the (title tg)\<rparr> else t0);
          t2 = (case artists tg of Some a \<Rightarrow> t1\<lparr>tag_performers := a\<rparr> | None \<Rightarrow> t1);
          t3 = (if truthy_string (album tg) then t2\<lparr>tag_album := the (album tg)\<rparr> else t2);
          t4 = (case genres tg of Some g \<Rightarrow> t3\<lparr>tag_genres := g\<rparr> | None \<Rightarrow> t3);
          t5 = (if truthy_string (composer tg) then t4\<lparr>tag_composers := [the (composer tg)]\<rparr> else t4);
          t6 = (case trackNumber tg of Some n \<Rightarrow> t5\<lparr>tag_track := n\<rparr> | None \<Rightarrow> t5);
          t7 = (case year tg of Some y \<Rightarrow> t6\<lparr>tag_year := y\<rparr> | None \<Rightarrow> t6);
          t8 = (case artwork tg of Some a \<Rightarrow> t7\<lparr>tag_pictures := [a]\<rparr> | None \<Rightarrow> t7);
          t9 = (if truthy_string (lyrics tg) then t8\<lparr>tag_lyrics := the (lyrics tg)\<rparr> else t8)
      in t9)"

text \<open>
  The collaborators of the flush, each of which may throw (\<open>Inl\<close>, or \<open>Some\<close>
  error for a call without a result). \<open>isASupportedFormat\<close> stands for
  \<open>metadataEditingSupportedExtensions.includes(path.extname(p).replace(/\W/, ''))\<close>:
  the list comes from \<open>package.json\<close>, which is not among the sources.
  \<open>statSync\<close> returns \<open>stats.mtime.getTime()\<close>, or \<open>None\<close> when
  \<open>stats?.mtime\<close> is falsy.
\<close>

record 'e env =
  getUserSettings :: "'e + bool"
  isASupportedFormat :: "string \<Rightarrow> bool"
  createFromPath :: "string \<Rightarrow> 'e + File"
  fileSave :: "File \<Rightarrow> 'e option"
  fileDispose :: "File \<Rightarrow> 'e option"
  parseLyrics :: "string \<Rightarrow> bool option"
  saveLyricsToLRCFile :: "string \<Rightarrow> 'e option"
  statSync :: "string \<Rightarrow> 'e + nat option"
  updateSongModifiedAtByPath :: "string \<Rightarrow> nat \<Rightarrow> 'e option"

datatype effect =
    FileHandle "File fh_call"
  | SaveLyricsToLRCFile string
  | SendMessageToRenderer string "string option"
  | DataUpdateEvent string
  | StatSync string
  | UpdateSongModifiedAtByPath string nat
  | LoggerDebug string
  | LoggerInfo string
  | LoggerError string

text \<open>
  The process-wide \<open>Map\<close> of pending updates. A JavaScript \<open>Map\<close> iterates in
  insertion order, \<open>set\<close> on a present key keeps its place, \<open>delete\<close> removes
  the entry: an association list with these two operations.
\<close>

type_synonym pending_map = "(string \<times> PendingMetadataUpdates) list"

fun map_set :: "string \<Rightarrow> PendingMetadataUpdates \<Rightarrow> pending_map \<Rightarrow> pending_map" where
  "map_set k v [] = [(k, v)]"
| "map_set k v ((k', v') # m) = (if k' = k then (k, v) # m else (k', v') # map_set k v m)"

definition map_delete :: "string \<Rightarrow> pending_map \<Rightarrow> pending_map" where
  "map_delete k m = filter (\<lambda>kv. fst kv \<noteq> k) m"

definition isMetadataUpdatesPending :: "pending_map \<Rightarrow> string \<Rightarrow> bool" where
  "isMetadataUpdatesPending m p = (p \<in> fst ` set m)"

text \<open>The \<open>await withFileHandle(songPath, async (file) => { ...; file.save(); })\<close>
  of the first \<open>try\<close> block.\<close>

definition tagWrite ::
  "'e env \<Rightarrow> string \<Rightarrow> PendingMetadataUpdates \<Rightarrow> ('e + unit) \<times> File fh_call list" where
  "tagWrite E sp pm =
     withFileHandle (createFromPath E) (fileDispose E) sp
       (\<lambda>file. case fileSave E (file\<lparr>file_tag := writeTags (tags pm) (file_tag file)\<rparr>) of
                 None \<Rightarrow> Inr ()
               | Some error \<Rightarrow> Inl error)"

text \<open>Saving the lyrics to an LRC file, between the write and the success log.\<close>

definition lrcStep :: "'e env \<Rightarrow> bool \<Rightarrow> bool \<Rightarrow> string \<Rightarrow> PendingMetadataUpdates
    \<Rightarrow> 'e option \<times> effect list" where
  "lrcStep E supported saveLrc sp pm =
     (if \<not> supported \<or> saveLrc then
        (if truthy_string (lyrics (tags pm)) then
           (case parseLyrics E (the (lyrics (tags pm))) of
              None \<Rightarrow> (None, [])
            | Some isSynced \<Rightarrow> (saveLyricsToLRCFile E sp, [SaveLyricsToLRCFile sp]))
         else (None, []))
      else (None, []))"

text \<open>
  The first \<open>try\<close>/\<open>catch\<close> of the loop body: write the tags, save the LRC
  file, log, notify, and only then delete the entry. Anything thrown on the way is
  caught and logged, and the rest of the block is skipped.
\<close>

definition flushWrite :: "'e env \<Rightarrow> bool \<Rightarrow> bool \<Rightarrow> string \<Rightarrow> PendingMetadataUpdates
    \<Rightarrow> pending_map \<Rightarrow> pending_map \<times> effect list" where
  "flushWrite E supported saveLrc sp pm pend =
     (case tagWrite E sp pm of
        (Inl error, calls) \<Rightarrow> (pend, map FileHandle calls @ [LoggerError sp])
      | (Inr u, calls) \<Rightarrow>
          (case lrcStep E supported saveLrc sp pm of
             (Some error, effs) \<Rightarrow> (pend, map FileHandle calls @ effs @ [LoggerError sp])
           | (None, effs) \<Rightarrow>
               (map_delete sp pend,
                map FileHandle calls @ effs @
                [LoggerInfo sp,
                 SendMessageToRenderer ''PENDING_METADATA_UPDATES_SAVED'' (title (tags pm)),
                 DataUpdateEvent ''songs/artworks'',
                 DataUpdateEvent ''songs/updatedSong'',
                 DataUpdateEvent ''artists'',
                 DataUpdateEvent ''albums'',
                 DataUpdateEvent ''genres''])))"

text \<open>
  The second \<open>try\<close>/\<open>catch\<close>: read the file's modification time; for the
  currently playing song \<open>return { modifiedDate }\<close> leaves the whole function, for
  any other song the store is updated and an event is sent.
\<close>

datatype control = Continue | Return nat

definition flushStat :: "'e env \<Rightarrow> bool \<Rightarrow> string \<Rightarrow> control \<times> effect list" where
  "flushStat E isACurrentlyPlayingSong sp =
     (case statSync E sp of
        Inl error \<Rightarrow> (Continue, [StatSync sp, LoggerError sp])
      | Inr None \<Rightarrow> (Continue, [StatSync sp])
      | Inr (Some modifiedDate) \<Rightarrow>
          (if isACurrentlyPlayingSong then (Return modifiedDate, [StatSync sp])
           else (case updateSongModifiedAtByPath E sp modifiedDate of
                   Some error \<Rightarrow>
                     (Continue,
                      [StatSync sp, UpdateSongModifiedAtByPath sp modifiedDate, LoggerError sp])
                 | None \<Rightarrow>
                     (Continue,
                      [StatSync sp, UpdateSongModifiedAtByPath sp modifiedDate,
                       DataUpdateEvent ''songs/updatedSong'']))))"

text \<open>One iteration of the \<open>for\<close> loop, for the entry \<open>(songPath, pendingMetadata)\<close>.\<close>

definition flushEntry :: "'e env \<Rightarrow> string \<Rightarrow> bool \<Rightarrow> bool \<Rightarrow> bool
    \<Rightarrow> string \<times> PendingMetadataUpdates \<Rightarrow> pending_map
    \<Rightarrow> control \<times> pending_map \<times> effect list" where
  "flushEntry E currentSongPath forceSave supported saveLrc entry pend =
     (let sp = fst entry; pm = snd entry;
          isACurrentlyPlayingSong = (sp = currentSongPath)
      in if forceSave \<or> \<not> isACurrentlyPlayingSong then
           (let w = flushWrite E supported saveLrc sp pm pend;
                s = flushStat E isACurrentlyPlayingSong sp
            in (fst s, fst w, snd w @ snd s))
         else (Continue, pend, []))"

datatype save_result = Undefined | ModifiedDate nat

fun flushLoop :: "'e env \<Rightarrow> string \<Rightarrow> bool \<Rightarrow> bool \<Rightarrow> bool
    \<Rightarrow> (string \<times> PendingMetadataUpdates) list \<Rightarrow> pending_map
    \<Rightarrow> save_result \<times> pending_map \<times> effect list" where
  "flushLoop E currentSongPath forceSave supported saveLrc [] pend = (Undefined, pend, [])"
| "flushLoop E currentSongPath forceSave supported saveLrc (entry # entries) pend =
     (case flushEntry E currentSongPath forceSave supported saveLrc entry pend of
        (Return modifiedDate, pend', effs) \<Rightarrow> (ModifiedDate modifiedDate, pend', effs)
      | (Continue, pend', effs) \<Rightarrow>
          (case flushLoop E currentSongPath forceSave supported saveLrc entries pend' of
             (r, pend'', effs') \<Rightarrow> (r, pend'', effs @ effs')))"

text \<open>
  \<open>savePendingMetadataUpdates(currentSongPath, forceSave)\<close> on the pending map
  \<open>pend\<close>: the result (or the error of \<open>getUserSettings\<close>, the only call outside
  a \<open>try\<close>), the map afterwards and the effects in order.
\<close>

definition savePendingMetadataUpdates :: "'e env \<Rightarrow> pending_map \<Rightarrow> string \<Rightarrow> bool
    \<Rightarrow> ('e + save_result) \<times> pending_map \<times> effect list" where
  "savePendingMetadataUpdates E pend currentSongPath forceSave =
     (case getUserSettings E of
        Inl error \<Rightarrow> (Inl error, pend, [])
      | Inr saveLyricsInLrcFilesForSupportedSongs \<Rightarrow>
          (if pend = [] then (Inr Undefined, pend, [LoggerDebug ''No pending metadata updates found.''])
           else
             (case flushLoop E currentSongPath forceSave (isASupportedFormat E currentSongPath)
                     saveLyricsInLrcFilesForSupportedSongs pend pend of
                (r, pend', effs) \<Rightarrow>
                  (Inr r, pend', LoggerDebug ''Started saving pending metadata updates.'' # effs))))"

definition addMetadataToPendingQueue :: "'e env \<Rightarrow> string \<Rightarrow> pending_map \<Rightarrow> PendingMetadataUpdates
    \<Rightarrow> ('e + save_result) \<times> pending_map \<times> effect list" where
  "addMetadataToPendingQueue E currentSongPath pend d =
     (let pend' = map_set (songPath d) d pend;
          isACurrentlyPlayingSong = (songPath d = currentSongPath)
      in if \<not> isACurrentlyPlayingSong then savePendingMetadataUpdates E pend' currentSongPath True
         else (Inr Undefined, pend', []))"

text \<open>A flush of the entry of path \<open>p\<close> was attempted: its file was opened.\<close>

definition flushAttempted :: "effect list \<Rightarrow> string \<Rightarrow> bool" where
  "flushAttempted effs p = (FileHandle (CreateFromPath p) \<in> set effs)"

text \<open>The topics of the data-update events and the codes of the renderer messages among
  the effects, in order.\<close>

definition dataUpdateEvents :: "effect list \<Rightarrow> string list" where
  "dataUpdateEvents effs = concat (map (\<lambda>e. case e of DataUpdateEvent topic \<Rightarrow> [topic] | _ \<Rightarrow> []) effs)"

definition rendererMessages :: "effect list \<Rightarrow> string list" where
  "rendererMessages effs =
     concat (map (\<lambda>e. case e of SendMessageToRenderer messageCode d \<Rightarrow> [messageCode] | _ \<Rightarrow> []) effs)"

subsection \<open>Example data\<close>

text \<open>
  A pending edit that sets only the title, a file with empty tags, an environment in
  which every collaborator succeeds and every file has the modification time 1700, and
  the same environment with a \<open>file.save()\<close> that throws.
\<close>

definition ex_tags :: TagData where
  "ex_tags = \<lparr>title = Some ''Song'', artists = None, album = None, genres = None,
     composer = None, trackNumber = None, year = None, artwork = None, lyrics = None\<rparr>"

definition ex_pending :: "string \<Rightarrow> PendingMetadataUpdates" where
  "ex_pending p = \<lparr>songPath = p, tags = ex_tags, sendUpdatedData = None, isKnownSource = Some True\<rparr>"

definition ex_fileTag :: FileTag where
  "ex_fileTag = \<lparr>tag_title = '''', tag_performers = [], tag_album = '''', tag_genres = [],
     tag_composers = [], tag_track = 0, tag_year = 0, tag_pictures = [], tag_lyrics = ''''\<rparr>"

definition ex_env :: "unit env" where
  "ex_env = \<lparr>getUserSettings = Inr False, isASupportedFormat = (\<lambda>p. True),
     createFromPath = (\<lambda>p. Inr \<lparr>file_path = p, file_tag = ex_fileTag\<rparr>),
     fileSave = (\<lambda>f. None), fileDispose = (\<lambda>f. None), parseLyrics = (\<lambda>s. None),
     saveLyricsToLRCFile = (\<lambda>p. None), statSync = (\<lambda>p. Inr (Some 1700)),
     updateSongModifiedAtByPath = (\<lambda>p t. None)\<rparr>"

definition ex_env_save_throws :: "unit env" where
  "ex_env_save_throws = ex_env\<lparr>fileSave := (\<lambda>f. Some ())\<rparr>"

subsection \<open>Which entries a call flushes\<close>

lemma flushWrite_attempts: "flushAttempted (snd (flushWrite E supported saveLrc sp pm pend)) sp"
  by (auto simp: flushWrite_def flushAttempted_def tagWrite_def withFileHandle_def
           split: prod.splits sum.splits option.splits)

lemma flushEntry_attempts:
  "forceSave \<or> fst entry \<noteq> cur \<Longrightarrow>
   flushAttempted (snd (snd (flushEntry E cur forceSave supported saveLrc entry pend))) (fst entry)"
  using flushWrite_attempts[of E supported saveLrc "fst entry" "snd entry" pend]
  by (auto simp: flushEntry_def Let_def flushAttempted_def)

lemma flushStat_Return:
  "fst (flushStat E playing sp) = Return d \<Longrightarrow> playing"
  by (auto simp: flushStat_def split: sum.splits option.splits if_splits)

lemma flushEntry_Return:
  "fst (flushEntry E cur forceSave supported saveLrc entry pend) = Return d \<Longrightarrow> forceSave \<and> fst entry = cur"
  by (auto simp: flushEntry_def Let_def dest: flushStat_Return split: if_splits)

lemma flushAttempted_append:
  "flushAttempted (xs @ ys) p = (flushAttempted xs p \<or> flushAttempted ys p)"
  by (auto simp: flushAttempted_def)

lemma flushLoop_attempts_all:
  assumes "\<not> forceSave \<or> cur \<notin> fst ` set entries"
    and "(p, pm) \<in> set entries" and "forceSave \<or> p \<noteq> cur"
  shows "flushAttempted (snd (snd (flushLoop E cur forceSave supported saveLrc entries pend))) p"
  using assms
proof (induction entries arbitrary: pend)
  case Nil
  then show ?case by simp
next
  case (Cons entry entries)
  obtain c pend' effs where fe: "flushEntry E cur forceSave supported saveLrc entry pend = (c, pend', effs)"
    by (cases "flushEntry E cur forceSave supported saveLrc entry pend") auto
  have noret: "c = Continue"
  proof (cases c)
    case Continue then show ?thesis .
  next
    case (Return d)
    with fe flushEntry_Return[of E cur forceSave supported saveLrc entry pend d]
    have "forceSave \<and> fst entry = cur" by simp
    with Cons.prems(1) show ?thesis by auto
  qed
  obtain r pend'' effs' where fl: "flushLoop E cur forceSave supported saveLrc entries pend' = (r, pend'', effs')"
    by (cases "flushLoop E cur forceSave supported saveLrc entries pend'") auto
  show ?case
  proof (cases "(p, pm) = entry")
    case True
    with Cons.prems(3) flushEntry_attempts[of forceSave entry cur E supported saveLrc pend] fe
    have "flushAttempted effs p" by auto
    with fe fl noret show ?thesis by (simp add: flushAttempted_append)
  next
    case False
    with Cons.prems have "(p, pm) \<in> set entries" by auto
    moreover from Cons.prems(1) have "\<not> forceSave \<or> cur \<notin> fst ` set entries" by auto
    ultimately have "flushAttempted (snd (snd (flushLoop E cur forceSave supported saveLrc entries pend'))) p"
      using Cons.IH Cons.prems(3) by blast
    with fe fl noret show ?thesis by (simp add: flushAttempted_append)
  qed
qed

text \<open>
  C8. With \<open>forceSave\<close> set, the loop is left by \<open>return { modifiedDate }\<close> as
  soon as the entry of the currently playing path has been handled and its file has a
  modification time. Pending: \<open>/music/a.mp3\<close> then \<open>/music/b.mp3\<close>, playing
  \<open>/music/a.mp3\<close>: the call returns the modification date of the first, never opens
  the second, and the second stays pending. \<open>addMetadataToPendingQueue\<close> makes this
  very call when \<open>/music/a.mp3\<close> was edited while it played and \<open>/music/b.mp3\<close> is
  edited next.
\<close>

theorem force_save_stops_at_current_song:
  "fst (savePendingMetadataUpdates ex_env
          [(''/music/a.mp3'', ex_pending ''/music/a.mp3''),
           (''/music/b.mp3'', ex_pending ''/music/b.mp3'')] ''/music/a.mp3'' True)
     = Inr (ModifiedDate 1700)
   \<and> flushAttempted (snd (snd (savePendingMetadataUpdates ex_env
          [(''/music/a.mp3'', ex_pending ''/music/a.mp3''),
           (''/music/b.mp3'', ex_pending ''/music/b.mp3'')] ''/music/a.mp3'' True))) ''/music/a.mp3''
   \<and> \<not> flushAttempted (snd (snd (savePendingMetadataUpdates ex_env
          [(''/music/a.mp3'', ex_pending ''/music/a.mp3''),
           (''/music/b.mp3'', ex_pending ''/music/b.mp3'')] ''/music/a.mp3'' True))) ''/music/b.mp3''
   \<and> fst (snd (savePendingMetadataUpdates ex_env
          [(''/music/a.mp3'', ex_pending ''/music/a.mp3''),
           (''/music/b.mp3'', ex_pending ''/music/b.mp3'')] ''/music/a.mp3'' True))
     = [(''/music/b.mp3'', ex_pending ''/music/b.mp3'')]
   \<and> addMetadataToPendingQueue ex_env ''/music/a.mp3''
          [(''/music/a.mp3'', ex_pending ''/music/a.mp3'')] (ex_pending ''/music/b.mp3'')
     = savePendingMetadataUpdates ex_env
          [(''/music/a.mp3'', ex_pending ''/music/a.mp3''),
           (''/music/b.mp3'', ex_pending ''/music/b.mp3'')] ''/music/a.mp3'' True"
  by (simp add: ex_env_def ex_pending_def ex_tags_def ex_fileTag_def
      savePendingMetadataUpdates_def addMetadataToPendingQueue_def flushEntry_def flushWrite_def
      flushStat_def tagWrite_def withFileHandle_def fh_finally_def lrcStep_def truthy_string_def
      map_delete_def flushAttempted_def writeTags_def Let_def)

subsection \<open>A write that throws\<close>

lemma flushWrite_failed:
  assumes "isl (fst (tagWrite E sp pm))"
  shows "flushWrite E supported saveLrc sp pm pend = (pend, map FileHandle (snd (tagWrite E sp pm)) @ [LoggerError sp])"
  using assms by (cases "tagWrite E sp pm") (auto simp: flushWrite_def split: sum.splits)

lemma no_events_in_file_calls:
  "dataUpdateEvents (map FileHandle calls) = [] \<and> rendererMessages (map FileHandle calls) = []"
  by (induction calls) (simp_all add: dataUpdateEvents_def rendererMessages_def)

lemma events_append:
  "dataUpdateEvents (xs @ ys) = dataUpdateEvents xs @ dataUpdateEvents ys
   \<and> rendererMessages (xs @ ys) = rendererMessages xs @ rendererMessages ys"
  by (simp add: dataUpdateEvents_def rendererMessages_def)

lemma flushStat_emits:
  "rendererMessages (snd (flushStat E playing sp)) = []
   \<and> dataUpdateEvents (snd (flushStat E playing sp))
     = (case statSync E sp of
          Inr (Some modifiedDate) \<Rightarrow>
            (if \<not> playing \<and> updateSongModifiedAtByPath E sp modifiedDate = None
             then [''songs/updatedSong''] else [])
        | _ \<Rightarrow> [])"
  by (simp add: flushStat_def dataUpdateEvents_def rendererMessages_def
        split: sum.splits option.splits)

lemma flushEntry_failed_write:
  assumes "isl (fst (tagWrite E sp pm))"
  shows "fst (snd (flushEntry E cur force supported saveLrc (sp, pm) pend)) = pend"
    and "rendererMessages (snd (snd (flushEntry E cur force supported saveLrc (sp, pm) pend))) = []"
    and "dataUpdateEvents (snd (snd (flushEntry E cur force supported saveLrc (sp, pm) pend)))
     = (case statSync E sp of
          Inr (Some modifiedDate) \<Rightarrow>
            (if sp \<noteq> cur \<and> updateSongModifiedAtByPath E sp modifiedDate = None
             then [''songs/updatedSong''] else [])
        | _ \<Rightarrow> [])"
proof -
  note w = flushWrite_failed[OF assms, of supported saveLrc pend]
  have ev: "dataUpdateEvents [LoggerError sp] = []" "rendererMessages [LoggerError sp] = []"
    by (simp_all add: dataUpdateEvents_def rendererMessages_def)
  show "fst (snd (flushEntry E cur force supported saveLrc (sp, pm) pend)) = pend"
    by (simp add: flushEntry_def Let_def w)
  show "rendererMessages (snd (snd (flushEntry E cur force supported saveLrc (sp, pm) pend))) = []"
    using flushStat_emits[of E "sp = cur" sp]
    by (simp add: flushEntry_def Let_def w events_append no_events_in_file_calls ev)
       (simp add: rendererMessages_def)
  show "dataUpdateEvents (snd (snd (flushEntry E cur force supported saveLrc (sp, pm) pend)))
     = (case statSync E sp of
          Inr (Some modifiedDate) \<Rightarrow>
            (if sp \<noteq> cur \<and> updateSongModifiedAtByPath E sp modifiedDate = None
             then [''songs/updatedSong''] else [])
        | _ \<Rightarrow> [])"
    using flushStat_emits[of E "sp = cur" sp]
    by (auto simp: flushEntry_def Let_def w events_append no_events_in_file_calls ev
          dataUpdateEvents_def split: sum.splits option.splits)
qed

lemma flushWrite_pending:
  "fst (flushWrite E supported saveLrc sp pm pend) = pend \<or> fst (flushWrite E supported saveLrc sp pm pend) = map_delete sp pend"
  by (auto simp: flushWrite_def split: prod.splits sum.splits option.splits)

lemma flushEntry_pending:
  "fst (snd (flushEntry E cur force supported saveLrc entry pend)) = pend
   \<or> fst (snd (flushEntry E cur force supported saveLrc entry pend)) = map_delete (fst entry) pend"
  using flushWrite_pending[of E supported saveLrc "fst entry" "snd entry" pend]
  by (auto simp: flushEntry_def Let_def)

lemma flushLoop_keeps_failed:
  assumes "isl (fst (tagWrite E sp pm))"
    and "\<forall>v. (sp, v) \<in> set entries \<longrightarrow> v = pm"
    and "(sp, pm) \<in> set pend"
  shows "(sp, pm) \<in> set (fst (snd (flushLoop E cur force supported saveLrc entries pend)))"
  using assms(2,3)
proof (induction entries arbitrary: pend)
  case Nil
  then show ?case by simp
next
  case (Cons entry entries)
  obtain c pend' effs where fe: "flushEntry E cur force supported saveLrc entry pend = (c, pend', effs)"
    by (cases "flushEntry E cur force supported saveLrc entry pend") auto
  have keep: "(sp, pm) \<in> set pend'"
  proof (cases "fst entry = sp")
    case True
    with Cons.prems(1) have "entry = (sp, pm)" by (cases entry) auto
    with fe flushEntry_failed_write(1)[OF assms(1), of cur force supported saveLrc pend] Cons.prems(2)
    show ?thesis by simp
  next
    case False
    with flushEntry_pending[of E cur force supported saveLrc entry pend] fe Cons.prems(2)
    show ?thesis by (auto simp: map_delete_def)
  qed
  show ?case
  proof (cases c)
    case (Return d)
    with fe keep show ?thesis by simp
  next
    case Continue
    from Cons.prems(1) have "\<forall>v. (sp, v) \<in> set entries \<longrightarrow> v = pm" by auto
    from Cons.IH[OF this keep]
    have "(sp, pm) \<in> set (fst (snd (flushLoop E cur force supported saveLrc entries pend')))" .
    with fe Continue show ?thesis
      by (cases "flushLoop E cur force supported saveLrc entries pend'") simp
  qed
qed

text \<open>
  C10, as stated, at a concrete input: the write of \<open>/music/a.mp3\<close> throws in
  \<open>file.save()\<close>, no song is playing, and the call still sends one data-update
  event, the \<open>songs/updatedSong\<close> of the second \<open>try\<close> block, which runs
  whether or not the write succeeded.
\<close>

theorem failed_write_still_emits_updatedSong:
  "isl (fst (tagWrite ex_env_save_throws ''/music/a.mp3'' (ex_pending ''/music/a.mp3'')))
   \<and> dataUpdateEvents (snd (snd (savePendingMetadataUpdates ex_env_save_throws
              [(''/music/a.mp3'', ex_pending ''/music/a.mp3'')] '''' False)))
       = [''songs/updatedSong'']"
  by (simp add: ex_env_def ex_env_save_throws_def ex_pending_def ex_tags_def ex_fileTag_def
      savePendingMetadataUpdates_def flushEntry_def flushWrite_def flushStat_def tagWrite_def
      withFileHandle_def fh_finally_def lrcStep_def truthy_string_def writeTags_def Let_def
      dataUpdateEvents_def)

text \<open>
  C10, amended. If the tag write of a path throws, its entry is still in the pending
  map when \<open>savePendingMetadataUpdates\<close> ends; its iteration leaves the map as it
  was and sends no message to the renderer; and the data-update events of the iteration
  are none, or the one \<open>songs/updatedSong\<close> of the modification-time step when the
  path is not the playing one, its file has a modification time and the store update
  succeeds.
\<close>

theorem failed_write_keeps_entry:
  assumes "isl (fst (tagWrite E sp pm))" and "distinct (map fst pend)" and "(sp, pm) \<in> set pend"
  shows "(sp, pm) \<in> set (fst (snd (savePendingMetadataUpdates E pend cur force)))
    \<and> fst (snd (flushEntry E cur force supported saveLrc (sp, pm) pend')) = pend'
    \<and> rendererMessages (snd (snd (flushEntry E cur force supported saveLrc (sp, pm) pend'))) = []
    \<and> dataUpdateEvents (snd (snd (flushEntry E cur force supported saveLrc (sp, pm) pend')))
        = (case statSync E sp of
             Inr (Some modifiedDate) \<Rightarrow>
               (if sp \<noteq> cur \<and> updateSongModifiedAtByPath E sp modifiedDate = None
                then [''songs/updatedSong''] else [])
           | _ \<Rightarrow> [])"
proof -
  from assms(2,3) have uniq: "\<forall>v. (sp, v) \<in> set pend \<longrightarrow> v = pm"
    by (meson eq_key_imp_eq_value)
  have a: "(sp, pm) \<in> set (fst (snd (savePendingMetadataUpdates E pend cur force)))"
  proof (cases "getUserSettings E")
    case (Inl error)
    with assms(3) show ?thesis by (simp add: savePendingMetadataUpdates_def)
  next
    case (Inr saveLrc)
    from flushLoop_keeps_failed[OF assms(1) uniq assms(3)]
    have "(sp, pm) \<in> set (fst (snd (flushLoop E cur force (isASupportedFormat E cur) saveLrc pend pend)))" .
    moreover from assms(3) have "pend \<noteq> []" by auto
    ultimately show ?thesis using Inr
      by (cases "flushLoop E cur force (isASupportedFormat E cur) saveLrc pend pend")
         (simp add: savePendingMetadataUpdates_def)
  qed
  from a flushEntry_failed_write[OF assms(1), of cur force supported saveLrc pend']
  show ?thesis by simp
qed

theorem failed_write_keeps_entry_witness:
  "isl (fst (tagWrite ex_env_save_throws ''/music/a.mp3'' (ex_pending ''/music/a.mp3'')))
   \<and> (''/music/a.mp3'', ex_pending ''/music/a.mp3'')
        \<in> set (fst (snd (savePendingMetadataUpdates ex_env_save_throws
              [(''/music/a.mp3'', ex_pending ''/music/a.mp3'')] '''' False)))
   \<and> rendererMessages (snd (snd (flushEntry ex_env_save_throws '''' False True False
          (''/music/a.mp3'', ex_pending ''/music/a.mp3'')
          [(''/music/a.mp3'', ex_pending ''/music/a.mp3'')]))) = []
   \<and> dataUpdateEvents (snd (snd (flushEntry ex_env_save_throws '''' False True False
          (''/music/a.mp3'', ex_pending ''/music/a.mp3'')
          [(''/music/a.mp3'', ex_pending ''/music/a.mp3'')]))) = [''songs/updatedSong'']"
proof -
  have h: "isl (fst (tagWrite ex_env_save_throws ''/music/a.mp3'' (ex_pending ''/music/a.mp3'')))"
    by (simp add: ex_env_def ex_env_save_throws_def ex_pending_def ex_tags_def ex_fileTag_def
          tagWrite_def withFileHandle_def fh_finally_def truthy_string_def writeTags_def Let_def)
  have d: "distinct (map fst [(''/music/a.mp3'', ex_pending ''/music/a.mp3'')])" by simp
  have m: "(''/music/a.mp3'', ex_pending ''/music/a.mp3'')
             \<in> set [(''/music/a.mp3'', ex_pending ''/music/a.mp3'')]" by simp
  have e: "statSync ex_env_save_throws ''/music/a.mp3'' = Inr (Some 1700)"
    "updateSongModifiedAtByPath ex_env_save_throws ''/music/a.mp3'' 1700 = None"
    by (simp_all add: ex_env_def ex_env_save_throws_def)
  from failed_write_keeps_entry[OF h d m, of "''''" False True False
         "[(''/music/a.mp3'', ex_pending ''/music/a.mp3'')]"] h e
  show ?thesis by simp
qed

section \<open>Relationship reconciler: which links a song update removes\<close>

subsection \<open>The in-memory reconcilers \<open>manageArtistDataUpdates\<close> and \<open>manageGenreDataUpdates\<close>\<close>

text \<open>
  An entry of \<open>newSongData.artists\<close> is \<open>{ artistId?: string, name: string }\<close>;
  an entry of \<open>prevSongData.artists\<close> is \<open>{ artistId: string, name: string }\<close>.
  Genres have the same two shapes. A list that is \<open>undefined\<close> (so that
  \<open>Array.isArray\<close> is false) is \<open>None\<close>.
\<close>

record TagArtist =
  artistId :: "string option"
  artistName :: string

record SongArtist =
  linkedArtistId :: string
  linkedArtistName :: string

record TagGenre =
  genreId :: "string option"
  genreName :: string

record SongGenre =
  linkedGenreId :: string
  linkedGenreName :: string

definition artistsWithoutIds :: "TagArtist list option \<Rightarrow> TagArtist list" where
  "artistsWithoutIds newArtists =
     (case newArtists of
        Some as \<Rightarrow> filter (\<lambda>artist. artistId artist = None) as
      | None \<Rightarrow> [])"

definition artistsWithIds :: "TagArtist list option \<Rightarrow> TagArtist list" where
  "artistsWithIds newArtists =
     (case newArtists of
        Some as \<Rightarrow> filter (\<lambda>artist. artistId artist \<noteq> None) as
      | None \<Rightarrow> [])"

definition unlinkedArtists :: "TagArtist list option \<Rightarrow> SongArtist list option \<Rightarrow> SongArtist list" where
  "unlinkedArtists newArtists prevArtists =
     (case prevArtists of
        Some prev \<Rightarrow>
          (if length prev > 0 \<and> length (artistsWithIds newArtists) = 0 then prev
           else filter (\<lambda>a. \<not> list_ex (\<lambda>b. Some (linkedArtistId a) = artistId b)
                                 (artistsWithIds newArtists)) prev)
      | None \<Rightarrow> [])"

definition linkedArtists :: "TagArtist list option \<Rightarrow> SongArtist list option \<Rightarrow> TagArtist list" where
  "linkedArtists newArtists prevArtists =
     (case prevArtists of
        Some prev \<Rightarrow>
          (if length (artistsWithIds newArtists) > 0
           then filter (\<lambda>a. list_ex (\<lambda>b. artistId a = Some (linkedArtistId b)) prev)
                  (artistsWithIds newArtists)
           else [])
      | None \<Rightarrow> [])"

definition newlyLinkedArtists :: "TagArtist list option \<Rightarrow> SongArtist list option \<Rightarrow> TagArtist list" where
  "newlyLinkedArtists newArtists prevArtists =
     (case prevArtists of
        Some prev \<Rightarrow>
          (if length (artistsWithIds newArtists) > 0
           then filter (\<lambda>a. \<not> list_ex (\<lambda>b. artistId a = Some (linkedArtistId b)) prev)
                  (artistsWithIds newArtists)
           else [])
      | None \<Rightarrow> [])"

definition genresWithoutIds :: "TagGenre list option \<Rightarrow> TagGenre list" where
  "genresWithoutIds newGenres =
     (case newGenres of
        Some gs \<Rightarrow> filter (\<lambda>genre. genreId genre = None) gs
      | None \<Rightarrow> [])"

definition genresWithIds :: "TagGenre list option \<Rightarrow> TagGenre list" where
  "genresWithIds newGenres =
     (case newGenres of
        Some gs \<Rightarrow> filter (\<lambda>genre. genreId genre \<noteq> None) gs
      | None \<Rightarrow> [])"

definition unlinkedGenres :: "TagGenre list option \<Rightarrow> SongGenre list option \<Rightarrow> SongGenre list" where
  "unlinkedGenres newGenres prevGenres =
     (case prevGenres of
        Some prev \<Rightarrow>
          (if length (genresWithIds newGenres) > 0
           then filter (\<lambda>a. \<not> list_ex (\<lambda>b. Some (linkedGenreId a) = genreId b)
                                 (genresWithIds newGenres)) prev
           else [])
      | None \<Rightarrow> [])"

definition linkedGenres :: "TagGenre list option \<Rightarrow> SongGenre list option \<Rightarrow> TagGenre list" where
  "linkedGenres newGenres prevGenres =
     (case prevGenres of
        Some prev \<Rightarrow>
          (if length (genresWithIds newGenres) > 0
           then filter (\<lambda>a. list_ex (\<lambda>b. genreId a = Some (linkedGenreId b)) prev)
                  (genresWithIds newGenres)
           else [])
      | None \<Rightarrow> [])"

definition newlyLinkedGenres :: "TagGenre list option \<Rightarrow> SongGenre list option \<Rightarrow> TagGenre list" where
  "newlyLinkedGenres newGenres prevGenres =
     (case prevGenres of
        Some prev \<Rightarrow>
          (if length (genresWithIds newGenres) > 0
           then filter (\<lambda>a. \<not> list_ex (\<lambda>b. genreId a = Some (linkedGenreId b)) prev)
                  (genresWithIds newGenres)
           else [])
      | None \<Rightarrow> [])"

text \<open>
  What the spec calls \<open>unlinked\<close>: the previous links whose id no declared entry
  with an id carries.
\<close>

definition absentFromWithIds :: "string option list \<Rightarrow> string \<Rightarrow> bool" where
  "absentFromWithIds declaredIds i = (Some i \<notin> set (filter (\<lambda>d. d \<noteq> None) declaredIds))"

definition declaredArtistIds :: "TagArtist list option \<Rightarrow> string option list" where
  "declaredArtistIds newArtists = (case newArtists of Some as \<Rightarrow> map artistId as | None \<Rightarrow> [])"

definition declaredGenreIds :: "TagGenre list option \<Rightarrow> string option list" where
  "declaredGenreIds newGenres = (case newGenres of Some gs \<Rightarrow> map genreId gs | None \<Rightarrow> [])"

subsection \<open>The store-backed reconciler inside \<open>updateSongId3Tags\<close>\<close>

text \<open>
  In \<open>updateSongId3Tags\<close> the ids of the store are numbers and the ids of the tags
  are strings: \<open>artistsWithIds\<close> keeps the entries whose id is truthy (present and
  not the empty string) and compares through \<open>Number(a.artistId)\<close>. The conversion
  is the parameter \<open>toNumber\<close>, \<open>None\<close> standing for \<open>NaN\<close>, which is equal to
  no id.
\<close>

definition truthyArtistsWithIds :: "TagArtist list \<Rightarrow> TagArtist list" where
  "truthyArtistsWithIds tagArtists = filter (\<lambda>artist. truthy_string (artistId artist)) tagArtists"

definition truthyArtistsWithoutIds :: "TagArtist list \<Rightarrow> TagArtist list" where
  "truthyArtistsWithoutIds tagArtists = filter (\<lambda>artist. \<not> truthy_string (artistId artist)) tagArtists"

definition newlyLinkedArtistIds :: "(string \<Rightarrow> nat option) \<Rightarrow> TagArtist list \<Rightarrow> nat list \<Rightarrow> nat option list" where
  "newlyLinkedArtistIds toNumber tagArtists currentArtistIds =
     map (\<lambda>a. toNumber (the (artistId a)))
       (filter (\<lambda>a. \<not> list_ex (\<lambda>c. toNumber (the (artistId a)) = Some c) currentArtistIds)
          (truthyArtistsWithIds tagArtists))"

definition unlinkedArtistIds :: "(string \<Rightarrow> nat option) \<Rightarrow> TagArtist list \<Rightarrow> nat list \<Rightarrow> nat list" where
  "unlinkedArtistIds toNumber tagArtists currentArtistIds =
     filter (\<lambda>i. \<not> list_ex (\<lambda>a. toNumber (the (artistId a)) = Some i) (truthyArtistsWithIds tagArtists))
       currentArtistIds"

definition truthyGenresWithIds :: "TagGenre list \<Rightarrow> TagGenre list" where
  "truthyGenresWithIds tagGenres = filter (\<lambda>genre. truthy_string (genreId genre)) tagGenres"

definition unlinkedGenreIds :: "(string \<Rightarrow> nat option) \<Rightarrow> TagGenre list \<Rightarrow> nat list \<Rightarrow> nat list" where
  "unlinkedGenreIds toNumber tagGenres currentGenreIds =
     filter (\<lambda>i. \<not> list_ex (\<lambda>g. toNumber (the (genreId g)) = Some i) (truthyGenresWithIds tagGenres))
       currentGenreIds"

text \<open>
  The block of \<open>updateSongId3Tags\<close> that reconciles the artists runs under
  \<open>if (tags.artists)\<close>, which holds for every array, the empty one included, and
  fails when the tags carry no \<open>artists\<close> field. Inside,
  \<open>currentArtistIds\<close> are the ids of \<open>song.artists?.map((a) => a.artist) || []\<close>
  and the loop \<open>for (const artistId of unlinkedArtistIds)\<close> unlinks the song from
  each id of \<open>unlinkedArtistIds\<close>. \<open>artistIdsToUnlink\<close> is the list of ids that
  loop runs over: none when the block is skipped. The block of the genres is the same
  under \<open>if (tags.genres)\<close>.
\<close>

definition currentIds :: "nat list option \<Rightarrow> nat list" where
  "currentIds linked = (case linked of Some ids \<Rightarrow> ids | None \<Rightarrow> [])"

definition artistIdsToUnlink :: "(string \<Rightarrow> nat option) \<Rightarrow> TagArtist list option \<Rightarrow> nat list option \<Rightarrow> nat list" where
  "artistIdsToUnlink toNumber tagsArtists songArtists =
     (case tagsArtists of
        Some tagArtists \<Rightarrow> unlinkedArtistIds toNumber tagArtists (currentIds songArtists)
      | None \<Rightarrow> [])"

definition genreIdsToUnlink :: "(string \<Rightarrow> nat option) \<Rightarrow> TagGenre list option \<Rightarrow> nat list option \<Rightarrow> nat list" where
  "genreIdsToUnlink toNumber tagsGenres songGenres =
     (case tagsGenres of
        Some tagGenres \<Rightarrow> unlinkedGenreIds toNumber tagGenres (currentIds songGenres)
      | None \<Rightarrow> [])"

text \<open>
  The spec's words for the same set. \<open>withIds\<close> are the declared entries that carry
  an id, here by the numbers of their ids; tags without the list declare no entry.
  \<open>unlinked\<close> is "previous links whose id is absent from \<open>withIds\<close>".
\<close>

definition idsOfDeclared :: "(string \<Rightarrow> nat option) \<Rightarrow> string option list option \<Rightarrow> nat option list" where
  "idsOfDeclared toNumber declared =
     (case declared of
        Some ids \<Rightarrow> map (\<lambda>i. toNumber (the i)) (filter truthy_string ids)
      | None \<Rightarrow> [])"

definition unlinkedOfSpec :: "nat option list \<Rightarrow> nat list \<Rightarrow> nat list" where
  "unlinkedOfSpec withIds previousLinks = filter (\<lambda>i. Some i \<notin> set withIds) previousLinks"

text \<open>A conversion for the examples: the ids \<open>7\<close> and \<open>9\<close>.\<close>

definition ex_toNumber :: "string \<Rightarrow> nat option" where
  "ex_toNumber s = (if s = ''7'' then Some 7 else if s = ''9'' then Some 9 else None)"

subsection \<open>The unlinked set\<close>

lemma absent_artist_iff:
  "absentFromWithIds (declaredArtistIds newArtists) i
     = (\<not> list_ex (\<lambda>b. Some i = artistId b) (artistsWithIds newArtists))"
  by (cases newArtists)
     (auto simp: absentFromWithIds_def declaredArtistIds_def artistsWithIds_def list_ex_iff)

text \<open>
  \<open>manageArtistDataUpdates\<close> computes the spec's set: the previous artists whose id
  no declared artist with an id carries; all of them when no declared artist has an id.
\<close>

lemma unlinkedArtists_is_spec:
  "unlinkedArtists newArtists (Some prev)
     = filter (\<lambda>a. absentFromWithIds (declaredArtistIds newArtists) (linkedArtistId a)) prev"
  by (simp add: unlinkedArtists_def absent_artist_iff)

lemma unlinkedArtists_no_ids:
  "artistsWithIds newArtists = [] \<Longrightarrow> unlinkedArtists newArtists (Some prev) = prev"
  by (simp add: unlinkedArtists_def)

lemma absent_genre_iff:
  "absentFromWithIds (declaredGenreIds newGenres) i
     = (\<not> list_ex (\<lambda>b. Some i = genreId b) (genresWithIds newGenres))"
  by (cases newGenres)
     (auto simp: absentFromWithIds_def declaredGenreIds_def genresWithIds_def list_ex_iff)

text \<open>
  \<open>manageGenreDataUpdates\<close> computes the same set only when some declared genre has
  an id; otherwise its \<open>unlinkedGenres\<close> is empty.
\<close>

lemma unlinkedGenres_char:
  "unlinkedGenres newGenres (Some prev)
     = (if genresWithIds newGenres = [] then []
        else filter (\<lambda>a. absentFromWithIds (declaredGenreIds newGenres) (linkedGenreId a)) prev)"
  by (simp add: unlinkedGenres_def absent_genre_iff)

text \<open>
  The store-backed reconciler of \<open>updateSongId3Tags\<close> unlinks the current ids that
  are the number of no declared id, and every current id when no declared entry has one.
\<close>

lemma unlinkedArtistIds_is_spec:
  "unlinkedArtistIds toNumber tagArtists current
     = filter (\<lambda>i. \<forall>a \<in> set tagArtists. truthy_string (artistId a) \<longrightarrow> toNumber (the (artistId a)) \<noteq> Some i)
         current"
  unfolding unlinkedArtistIds_def truthyArtistsWithIds_def list_ex_iff
  by (rule filter_cong[OF refl]) auto

lemma unlinkedArtistIds_no_ids:
  "truthyArtistsWithIds tagArtists = [] \<Longrightarrow> unlinkedArtistIds toNumber tagArtists current = current"
  by (simp add: unlinkedArtistIds_def)

lemma unlinkedGenreIds_is_spec:
  "unlinkedGenreIds toNumber tagGenres current
     = filter (\<lambda>i. \<forall>g \<in> set tagGenres. truthy_string (genreId g) \<longrightarrow> toNumber (the (genreId g)) \<noteq> Some i)
         current"
  unfolding unlinkedGenreIds_def truthyGenresWithIds_def list_ex_iff
  by (rule filter_cong[OF refl]) auto

lemma unlinkedGenreIds_no_ids:
  "truthyGenresWithIds tagGenres = [] \<Longrightarrow> unlinkedGenreIds toNumber tagGenres current = current"
  by (simp add: unlinkedGenreIds_def)

text \<open>
  \<open>manageArtistDataUpdates\<close> and \<open>manageGenreDataUpdates\<close> are constants of the
  module that nothing in it calls. On a song linked to the genre \<open>7\<close> whose new tags
  declare one genre by name only, \<open>unlinkedGenres\<close> is empty and
  \<open>unlinkedArtists\<close>, on the same data, is the previous link.
\<close>

lemma unlinkedGenres_without_ids:
  "unlinkedGenres (Some [\<lparr>genreId = None, genreName = ''Rock''\<rparr>])
                  (Some [\<lparr>linkedGenreId = ''7'', linkedGenreName = ''Pop''\<rparr>]) = []
   \<and> unlinkedArtists (Some [\<lparr>artistId = None, artistName = ''Rock''\<rparr>])
                  (Some [\<lparr>linkedArtistId = ''7'', linkedArtistName = ''Pop''\<rparr>])
       = [\<lparr>linkedArtistId = ''7'', linkedArtistName = ''Pop''\<rparr>]"
  by (simp add: unlinkedGenres_def genresWithIds_def unlinkedArtists_def artistsWithIds_def)

text \<open>
  In \<open>updateSongId3Tags\<close>, when the tags carry the list, the ids the update unlinks
  are the spec's set.
\<close>

lemma artistIdsToUnlink_declared:
  "artistIdsToUnlink toNumber (Some tagArtists) songArtists
     = unlinkedOfSpec (idsOfDeclared toNumber (Some (map artistId tagArtists))) (currentIds songArtists)"
  unfolding artistIdsToUnlink_def unlinkedOfSpec_def idsOfDeclared_def unlinkedArtistIds_def
    truthyArtistsWithIds_def list_ex_iff
  by (simp add: filter_map comp_def image_iff) (rule filter_cong[OF refl], auto)

lemma genreIdsToUnlink_declared:
  "genreIdsToUnlink toNumber (Some tagGenres) songGenres
     = unlinkedOfSpec (idsOfDeclared toNumber (Some (map genreId tagGenres))) (currentIds songGenres)"
  unfolding genreIdsToUnlink_def unlinkedOfSpec_def idsOfDeclared_def unlinkedGenreIds_def
    truthyGenresWithIds_def list_ex_iff
  by (simp add: filter_map comp_def image_iff) (rule filter_cong[OF refl], auto)

text \<open>
  C1, as stated, at a concrete input: the song is linked to the genre \<open>7\<close> (to the
  artist \<open>7\<close>) and the new tags have no \<open>genres\<close> field (no \<open>artists\<close> field),
  as in an edit of the title alone. No declared entry carries an id, so the spec's
  set is the previous link; \<open>if (tags.genres)\<close> fails, the block is skipped and the
  update unlinks nothing.
\<close>

theorem update_without_list_unlinks_nothing:
  "idsOfDeclared (\<lambda>s. None) None = []
   \<and> unlinkedOfSpec (idsOfDeclared (\<lambda>s. None) None) (currentIds (Some [7])) = [7]
   \<and> genreIdsToUnlink (\<lambda>s. None) None (Some [7]) = []
   \<and> artistIdsToUnlink (\<lambda>s. None) None (Some [7]) = []"
  by (simp add: idsOfDeclared_def unlinkedOfSpec_def currentIds_def genreIdsToUnlink_def
        artistIdsToUnlink_def)

text \<open>
  C1, amended. For a song update whose tags carry a list of artists, the artists the
  update unlinks are exactly the song's previous links whose id is absent from the
  declared entries carrying ids; when no entry of the list carries an id, every
  previous link is unlinked; and when the tags carry no list of artists, no artist is
  unlinked. The same holds of the genres.
\<close>

theorem update_unlinks_absent_ids:
  "artistIdsToUnlink toNumber (Some tagArtists) songArtists
     = unlinkedOfSpec (idsOfDeclared toNumber (Some (map artistId tagArtists))) (currentIds songArtists)
   \<and> (idsOfDeclared toNumber (Some (map artistId tagArtists)) = [] \<longrightarrow>
        artistIdsToUnlink toNumber (Some tagArtists) songArtists = currentIds songArtists)
   \<and> artistIdsToUnlink toNumber None songArtists = []
   \<and> genreIdsToUnlink toNumber (Some tagGenres) songGenres
     = unlinkedOfSpec (idsOfDeclared toNumber (Some (map genreId tagGenres))) (currentIds songGenres)
   \<and> (idsOfDeclared toNumber (Some (map genreId tagGenres)) = [] \<longrightarrow>
        genreIdsToUnlink toNumber (Some tagGenres) songGenres = currentIds songGenres)
   \<and> genreIdsToUnlink toNumber None songGenres = []"
proof -
  have a: "idsOfDeclared toNumber (Some (map artistId tagArtists)) = [] \<longrightarrow>
        artistIdsToUnlink toNumber (Some tagArtists) songArtists = currentIds songArtists"
    by (simp add: artistIdsToUnlink_declared unlinkedOfSpec_def)
  have g: "idsOfDeclared toNumber (Some (map genreId tagGenres)) = [] \<longrightarrow>
        genreIdsToUnlink toNumber (Some tagGenres) songGenres = currentIds songGenres"
    by (simp add: genreIdsToUnlink_declared unlinkedOfSpec_def)
  have n: "artistIdsToUnlink toNumber None songArtists = []" "genreIdsToUnlink toNumber None songGenres = []"
    by (simp_all add: artistIdsToUnlink_def genreIdsToUnlink_def)
  from a g n artistIdsToUnlink_declared[of toNumber tagArtists songArtists]
    genreIdsToUnlink_declared[of toNumber tagGenres songGenres]
  show ?thesis by blast
qed

theorem update_unlinks_absent_ids_witness:
  "idsOfDeclared ex_toNumber (Some (map artistId [\<lparr>artistId = None, artistName = ''Rock''\<rparr>])) = []
   \<and> artistIdsToUnlink ex_toNumber (Some [\<lparr>artistId = None, artistName = ''Rock''\<rparr>]) (Some [7, 9]) = [7, 9]
   \<and> idsOfDeclared ex_toNumber (Some (map genreId [\<lparr>genreId = Some '''', genreName = ''Rock''\<rparr>])) = []
   \<and> genreIdsToUnlink ex_toNumber (Some [\<lparr>genreId = Some '''', genreName = ''Rock''\<rparr>]) (Some [7]) = [7]
   \<and> artistIdsToUnlink ex_toNumber
        (Some [\<lparr>artistId = Some ''7'', artistName = ''Pop''\<rparr>, \<lparr>artistId = None, artistName = ''Rock''\<rparr>])
        (Some [7, 9]) = [9]"
proof -
  have h1: "idsOfDeclared ex_toNumber (Some (map artistId [\<lparr>artistId = None, artistName = ''Rock''\<rparr>])) = []"
    by (simp add: idsOfDeclared_def truthy_string_def)
  have h2: "idsOfDeclared ex_toNumber (Some (map genreId [\<lparr>genreId = Some '''', genreName = ''Rock''\<rparr>])) = []"
    by (simp add: idsOfDeclared_def truthy_string_def)
  from update_unlinks_absent_ids[of ex_toNumber "[\<lparr>artistId = None, artistName = ''Rock''\<rparr>]" "Some [7, 9]"
      "[\<lparr>genreId = Some '''', genreName = ''Rock''\<rparr>]" "Some [7]"] h1 h2
  have w: "artistIdsToUnlink ex_toNumber (Some [\<lparr>artistId = None, artistName = ''Rock''\<rparr>]) (Some [7, 9]) = currentIds (Some [7, 9])"
    "genreIdsToUnlink ex_toNumber (Some [\<lparr>genreId = Some '''', genreName = ''Rock''\<rparr>]) (Some [7]) = currentIds (Some [7])"
    by blast+
  from update_unlinks_absent_ids[of ex_toNumber
      "[\<lparr>artistId = Some ''7'', artistName = ''Pop''\<rparr>, \<lparr>artistId = None, artistName = ''Rock''\<rparr>]" "Some [7, 9]"
      "[]" None]
  have "artistIdsToUnlink ex_toNumber
        (Some [\<lparr>artistId = Some ''7'', artistName = ''Pop''\<rparr>, \<lparr>artistId = None, artistName = ''Rock''\<rparr>])
        (Some [7, 9])
      = unlinkedOfSpec (idsOfDeclared ex_toNumber (Some (map artistId
          [\<lparr>artistId = Some ''7'', artistName = ''Pop''\<rparr>, \<lparr>artistId = None, artistName = ''Rock''\<rparr>])))
          (currentIds (Some [7, 9]))"
    by blast
  then have w3: "artistIdsToUnlink ex_toNumber
        (Some [\<lparr>artistId = Some ''7'', artistName = ''Pop''\<rparr>, \<lparr>artistId = None, artistName = ''Rock''\<rparr>])
        (Some [7, 9]) = [9]"
    by (simp add: unlinkedOfSpec_def idsOfDeclared_def truthy_string_def ex_toNumber_def currentIds_def)
  from h1 h2 w w3 show ?thesis by (simp add: currentIds_def)
qed

subsection \<open>Unlinking in the store and deleting orphans\<close>

text \<open>
  The tables the unlink steps of \<open>updateSongId3Tags\<close> touch: the entity tables by
  the ids of their rows and the join tables as rows (entity id, song id). Deleting an
  entity row deletes its join rows too (\<open>ON DELETE CASCADE\<close>, as the documentation
  of \<open>deleteArtist\<close> and \<open>deleteGenre\<close> says). The queries are taken to
  succeed: one that throws aborts the transaction, which leaves the tables as they were.
\<close>

record store =
  artistsTbl :: "nat list"
  artistsSongs :: "(nat \<times> nat) list"
  genresTbl :: "nat list"
  genresSongs :: "(nat \<times> nat) list"
  albumsTbl :: "nat list"
  albumsSongs :: "(nat \<times> nat) list"

definition unlinkSongFromArtist :: "nat \<Rightarrow> nat \<Rightarrow> store \<Rightarrow> store" where
  "unlinkSongFromArtist aid sid db =
     db\<lparr>artistsSongs := filter (\<lambda>r. \<not> (fst r = aid \<and> snd r = sid)) (artistsSongs db)\<rparr>"

definition getArtistSongIds :: "nat \<Rightarrow> store \<Rightarrow> nat list" where
  "getArtistSongIds aid db = map snd (filter (\<lambda>r. fst r = aid) (artistsSongs db))"

definition deleteArtist :: "nat \<Rightarrow> store \<Rightarrow> store" where
  "deleteArtist aid db =
     db\<lparr>artistsTbl := filter (\<lambda>a. a \<noteq> aid) (artistsTbl db),
        artistsSongs := filter (\<lambda>r. fst r \<noteq> aid) (artistsSongs db)\<rparr>"

definition unlinkSongFromGenre :: "nat \<Rightarrow> nat \<Rightarrow> store \<Rightarrow> store" where
  "unlinkSongFromGenre gid sid db =
     db\<lparr>genresSongs := filter (\<lambda>r. \<not> (fst r = gid \<and> snd r = sid)) (genresSongs db)\<rparr>"

definition getGenreSongIds :: "nat \<Rightarrow> store \<Rightarrow> nat list" where
  "getGenreSongIds gid db = map snd (filter (\<lambda>r. fst r = gid) (genresSongs db))"

definition deleteGenre :: "nat \<Rightarrow> store \<Rightarrow> store" where
  "deleteGenre gid db =
     db\<lparr>genresTbl := filter (\<lambda>g. g \<noteq> gid) (genresTbl db),
        genresSongs := filter (\<lambda>r. fst r \<noteq> gid) (genresSongs db)\<rparr>"

text \<open>
  Modelled from the spec: \<open>unlinkSongFromAlbum\<close>, \<open>getAlbumSongIds\<close> and
  \<open>deleteAlbum\<close> of \<open>db/queries/albums\<close>, which is not among the sources. The
  spec lists them with the artist and genre queries (\<open>unlinkSongFrom*\<close>,
  \<open>get*SongIds\<close>, \<open>delete*\<close>, "delete must cascade-clean join rows").
\<close>

definition unlinkSongFromAlbum :: "nat \<Rightarrow> nat \<Rightarrow> store \<Rightarrow> store" where
  "unlinkSongFromAlbum alid sid db =
     db\<lparr>albumsSongs := filter (\<lambda>r. \<not> (fst r = alid \<and> snd r = sid)) (albumsSongs db)\<rparr>"

definition getAlbumSongIds :: "nat \<Rightarrow> store \<Rightarrow> nat list" where
  "getAlbumSongIds alid db = map snd (filter (\<lambda>r. fst r = alid) (albumsSongs db))"

definition deleteAlbum :: "nat \<Rightarrow> store \<Rightarrow> store" where
  "deleteAlbum alid db =
     db\<lparr>albumsTbl := filter (\<lambda>a. a \<noteq> alid) (albumsTbl db),
        albumsSongs := filter (\<lambda>r. fst r \<noteq> alid) (albumsSongs db)\<rparr>"

text \<open>
  The body of \<open>for (const artistId of unlinkedArtistIds)\<close>: unlink, read the
  remaining song ids, delete the artist when there are none. The genre loop has the
  same body, and so have the three places that unlink the song's current album.
\<close>

definition unlinkArtistStep :: "nat \<Rightarrow> nat \<Rightarrow> store \<Rightarrow> store" where
  "unlinkArtistStep sid aid db =
     (let db1 = unlinkSongFromArtist aid sid db;
          artistSongIds = getArtistSongIds aid db1
      in if length artistSongIds = 0 then deleteArtist aid db1 else db1)"

definition unlinkGenreStep :: "nat \<Rightarrow> nat \<Rightarrow> store \<Rightarrow> store" where
  "unlinkGenreStep sid gid db =
     (let db1 = unlinkSongFromGenre gid sid db;
          genreSongIds = getGenreSongIds gid db1
      in if length genreSongIds = 0 then deleteGenre gid db1 else db1)"

definition unlinkAlbumStep :: "nat \<Rightarrow> nat \<Rightarrow> store \<Rightarrow> store" where
  "unlinkAlbumStep sid alid db =
     (let db1 = unlinkSongFromAlbum alid sid db;
          albumSongIds = getAlbumSongIds alid db1
      in if length albumSongIds = 0 then deleteAlbum alid db1 else db1)"

definition unlinkArtistsLoop :: "nat \<Rightarrow> nat list \<Rightarrow> store \<Rightarrow> store" where
  "unlinkArtistsLoop sid unlinked db = fold (unlinkArtistStep sid) unlinked db"

definition unlinkGenresLoop :: "nat \<Rightarrow> nat list \<Rightarrow> store \<Rightarrow> store" where
  "unlinkGenresLoop sid unlinked db = fold (unlinkGenreStep sid) unlinked db"

text \<open>
  The orphan rule for one unlink step, on the tables themselves: the entity table and
  the join rows before (\<open>tbl\<close>, \<open>rows\<close>) and after (\<open>tbl'\<close>, \<open>rows'\<close>) the
  song \<open>sid\<close> is unlinked from the entity \<open>e\<close>. The rows of \<open>e\<close> are the old ones
  without those of the song; \<open>e\<close> is in its table afterwards exactly when it was
  there before and a row of another song remains; nothing of another entity changes.
\<close>

definition keptIffMember :: "nat \<Rightarrow> nat \<Rightarrow> nat list \<Rightarrow> (nat \<times> nat) list \<Rightarrow> nat list \<Rightarrow> (nat \<times> nat) list \<Rightarrow> bool" where
  "keptIffMember sid e tbl rows tbl' rows' =
     (filter (\<lambda>r. fst r = e) rows' = filter (\<lambda>r. fst r = e \<and> snd r \<noteq> sid) rows
      \<and> (e \<in> set tbl') = (e \<in> set tbl \<and> (\<exists>s. s \<noteq> sid \<and> (e, s) \<in> set rows))
      \<and> filter (\<lambda>r. fst r \<noteq> e) rows' = filter (\<lambda>r. fst r \<noteq> e) rows
      \<and> filter (\<lambda>a. a \<noteq> e) tbl' = filter (\<lambda>a. a \<noteq> e) tbl)"

text \<open>
  The same for a loop that unlinks the song from each entity of \<open>unlinked\<close>: an
  entity of the list loses the rows of the song and stays exactly when a row of
  another song remains; every other entity keeps its rows and its place in the table.
\<close>

definition keptIffMemberAll :: "nat \<Rightarrow> nat list \<Rightarrow> nat list \<Rightarrow> (nat \<times> nat) list \<Rightarrow> nat list \<Rightarrow> (nat \<times> nat) list \<Rightarrow> bool" where
  "keptIffMemberAll sid unlinked tbl rows tbl' rows' =
     (\<forall>e. filter (\<lambda>r. fst r = e) rows'
            = (if e \<in> set unlinked then filter (\<lambda>r. fst r = e \<and> snd r \<noteq> sid) rows
               else filter (\<lambda>r. fst r = e) rows)
          \<and> (e \<in> set tbl')
            = (e \<in> set tbl \<and> (if e \<in> set unlinked then \<exists>s. s \<noteq> sid \<and> (e, s) \<in> set rows else True)))"

text \<open>A store for the examples.\<close>

definition ex_store :: store where
  "ex_store = \<lparr>artistsTbl = [7, 8], artistsSongs = [(7, 1), (7, 2), (8, 1)],
               genresTbl = [3], genresSongs = [(3, 1)],
               albumsTbl = [5], albumsSongs = [(5, 1), (5, 4)]\<rparr>"

subsection \<open>Lemmas on join rows\<close>

lemma remaining_rows_iff:
  "(map snd (filter (\<lambda>r. fst r = e) (filter (\<lambda>r. \<not> (fst r = e \<and> snd r = sid)) rows)) = [])
     = (\<not> (\<exists>s. s \<noteq> sid \<and> (e, s) \<in> set rows))"
  by (induction rows) auto

lemma rows_of_entity_after_unlink:
  "filter (\<lambda>r. fst r = e) (filter (\<lambda>r. \<not> (fst r = e \<and> snd r = sid)) rows)
     = filter (\<lambda>r. fst r = e \<and> snd r \<noteq> sid) rows"
  by (induction rows) auto

lemma rows_of_entity_after_delete:
  "\<not> (\<exists>s. s \<noteq> sid \<and> (e, s) \<in> set rows) \<Longrightarrow>
   filter (\<lambda>r. fst r = e) (filter (\<lambda>r. fst r \<noteq> e) (filter (\<lambda>r. \<not> (fst r = e \<and> snd r = sid)) rows))
     = filter (\<lambda>r. fst r = e \<and> snd r \<noteq> sid) rows"
  by (induction rows) auto

lemma rows_of_others:
  "filter (\<lambda>r. fst r \<noteq> e) (filter (\<lambda>r. \<not> (fst r = e \<and> snd r = sid)) rows) = filter (\<lambda>r. fst r \<noteq> e) rows"
  "filter (\<lambda>r. fst r \<noteq> e) (filter (\<lambda>r. fst r \<noteq> e) (filter (\<lambda>r. \<not> (fst r = e \<and> snd r = sid)) rows))
     = filter (\<lambda>r. fst r \<noteq> e) rows"
  by (induction rows) auto

lemma orphan_step:
  "keptIffMember sid e tbl rows
     (if length (map snd (filter (\<lambda>r. fst r = e) (filter (\<lambda>r. \<not> (fst r = e \<and> snd r = sid)) rows))) = 0
      then filter (\<lambda>a. a \<noteq> e) tbl else tbl)
     (if length (map snd (filter (\<lambda>r. fst r = e) (filter (\<lambda>r. \<not> (fst r = e \<and> snd r = sid)) rows))) = 0
      then filter (\<lambda>r. fst r \<noteq> e) (filter (\<lambda>r. \<not> (fst r = e \<and> snd r = sid)) rows)
      else filter (\<lambda>r. \<not> (fst r = e \<and> snd r = sid)) rows)"
proof (cases "\<exists>s. s \<noteq> sid \<and> (e, s) \<in> set rows")
  case True
  with remaining_rows_iff[of e sid rows]
  have ne: "map snd (filter (\<lambda>r. fst r = e) (filter (\<lambda>r. \<not> (fst r = e \<and> snd r = sid)) rows)) \<noteq> []"
    by simp
  then have l: "length (map snd (filter (\<lambda>r. fst r = e) (filter (\<lambda>r. \<not> (fst r = e \<and> snd r = sid)) rows))) \<noteq> 0"
    by simp
  show ?thesis
    unfolding keptIffMember_def if_not_P[OF l]
    using True rows_of_entity_after_unlink[of e sid rows] rows_of_others(1)[of e sid rows]
    by simp
next
  case False
  with remaining_rows_iff[of e sid rows]
  have "map snd (filter (\<lambda>r. fst r = e) (filter (\<lambda>r. \<not> (fst r = e \<and> snd r = sid)) rows)) = []"
    by simp
  then have l: "length (map snd (filter (\<lambda>r. fst r = e) (filter (\<lambda>r. \<not> (fst r = e \<and> snd r = sid)) rows))) = 0"
    by simp
  show ?thesis
    unfolding keptIffMember_def if_P[OF l]
    using False rows_of_entity_after_delete[OF False] rows_of_others(2)[of e sid rows]
    by simp
qed

lemma unlinkArtistStep_rule:
  "keptIffMember sid e (artistsTbl db) (artistsSongs db)
     (artistsTbl (unlinkArtistStep sid e db)) (artistsSongs (unlinkArtistStep sid e db))"
  using orphan_step[of sid e "artistsTbl db" "artistsSongs db"]
  by (simp add: unlinkArtistStep_def Let_def unlinkSongFromArtist_def getArtistSongIds_def
        deleteArtist_def if_distrib[of artistsTbl] if_distrib[of artistsSongs] del: filter_filter length_0_conv cong: if_cong)


lemma unlinkGenreStep_rule:
  "keptIffMember sid e (genresTbl db) (genresSongs db)
     (genresTbl (unlinkGenreStep sid e db)) (genresSongs (unlinkGenreStep sid e db))"
  using orphan_step[of sid e "genresTbl db" "genresSongs db"]
  by (simp add: unlinkGenreStep_def Let_def unlinkSongFromGenre_def getGenreSongIds_def
        deleteGenre_def if_distrib[of genresTbl] if_distrib[of genresSongs] del: filter_filter length_0_conv cong: if_cong)

lemma unlinkAlbumStep_rule:
  "keptIffMember sid e (albumsTbl db) (albumsSongs db)
     (albumsTbl (unlinkAlbumStep sid e db)) (albumsSongs (unlinkAlbumStep sid e db))"
  using orphan_step[of sid e "albumsTbl db" "albumsSongs db"]
  by (simp add: unlinkAlbumStep_def Let_def unlinkSongFromAlbum_def getAlbumSongIds_def
        deleteAlbum_def if_distrib[of albumsTbl] if_distrib[of albumsSongs] del: filter_filter length_0_conv cong: if_cong)

lemma unlinkArtistStep_touches:
  "unlinkArtistStep sid e db
     = db\<lparr>artistsTbl := artistsTbl (unlinkArtistStep sid e db),
          artistsSongs := artistsSongs (unlinkArtistStep sid e db)\<rparr>"
  by (simp add: unlinkArtistStep_def Let_def unlinkSongFromArtist_def deleteArtist_def)

lemma unlinkGenreStep_touches:
  "unlinkGenreStep sid e db
     = db\<lparr>genresTbl := genresTbl (unlinkGenreStep sid e db),
          genresSongs := genresSongs (unlinkGenreStep sid e db)\<rparr>"
  by (simp add: unlinkGenreStep_def Let_def unlinkSongFromGenre_def deleteGenre_def)

lemma unlinkAlbumStep_touches:
  "unlinkAlbumStep sid e db
     = db\<lparr>albumsTbl := albumsTbl (unlinkAlbumStep sid e db),
          albumsSongs := albumsSongs (unlinkAlbumStep sid e db)\<rparr>"
  by (simp add: unlinkAlbumStep_def Let_def unlinkSongFromAlbum_def deleteAlbum_def)

lemma rows_of_other:
  "b \<noteq> e \<Longrightarrow> filter (\<lambda>r. fst r = b) (filter (\<lambda>r. fst r \<noteq> e) rows) = filter (\<lambda>r. fst r = b) rows"
  by (induction rows) auto

lemma member_of_other:
  "b \<noteq> e \<Longrightarrow> (b \<in> set (filter (\<lambda>a. a \<noteq> e) tbl)) = (b \<in> set tbl)"
  by simp

lemma step_entity:
  assumes "keptIffMember sid e tbl rows tbl' rows'"
  shows "filter (\<lambda>r. fst r = b) rows'
           = (if b = e then filter (\<lambda>r. fst r = b \<and> snd r \<noteq> sid) rows else filter (\<lambda>r. fst r = b) rows)"
    and "(b \<in> set tbl') = (b \<in> set tbl \<and> (if b = e then \<exists>s. s \<noteq> sid \<and> (b, s) \<in> set rows else True))"
proof -
  from assms have own: "filter (\<lambda>r. fst r = e) rows' = filter (\<lambda>r. fst r = e \<and> snd r \<noteq> sid) rows"
    and ex: "(e \<in> set tbl') = (e \<in> set tbl \<and> (\<exists>s. s \<noteq> sid \<and> (e, s) \<in> set rows))"
    and orows: "filter (\<lambda>r. fst r \<noteq> e) rows' = filter (\<lambda>r. fst r \<noteq> e) rows"
    and otbl: "filter (\<lambda>a. a \<noteq> e) tbl' = filter (\<lambda>a. a \<noteq> e) tbl"
    by (simp_all add: keptIffMember_def)
  show "filter (\<lambda>r. fst r = b) rows'
           = (if b = e then filter (\<lambda>r. fst r = b \<and> snd r \<noteq> sid) rows else filter (\<lambda>r. fst r = b) rows)"
  proof (cases "b = e")
    case True
    with own show ?thesis by simp
  next
    case False
    from rows_of_other[OF False, of rows'] rows_of_other[OF False, of rows] orows
    have "filter (\<lambda>r. fst r = b) rows' = filter (\<lambda>r. fst r = b) rows" by (simp only:)
    with False show ?thesis by simp
  qed
  show "(b \<in> set tbl') = (b \<in> set tbl \<and> (if b = e then \<exists>s. s \<noteq> sid \<and> (b, s) \<in> set rows else True))"
  proof (cases "b = e")
    case True
    with ex show ?thesis by simp
  next
    case False
    from member_of_other[OF False, of tbl'] member_of_other[OF False, of tbl] otbl
    have "(b \<in> set tbl') = (b \<in> set tbl)" by (simp only:)
    with False show ?thesis by simp
  qed
qed

lemma member_rows: "((b, s) \<in> set rows) = ((b, s) \<in> set (filter (\<lambda>r. fst r = b) rows))"
  by simp

lemma loop_compose:
  assumes st: "keptIffMember sid e tbl rows tbl1 rows1"
    and rest: "keptIffMemberAll sid unlinked tbl1 rows1 tbl' rows'"
  shows "keptIffMemberAll sid (e # unlinked) tbl rows tbl' rows'"
  unfolding keptIffMemberAll_def
proof (intro allI conjI)
  fix b
  note s1 = step_entity(1)[OF st, of b] and s2 = step_entity(2)[OF st, of b]
  from rest have r1: "filter (\<lambda>r. fst r = b) rows'
            = (if b \<in> set unlinked then filter (\<lambda>r. fst r = b \<and> snd r \<noteq> sid) rows1
               else filter (\<lambda>r. fst r = b) rows1)"
    and r2: "(b \<in> set tbl')
            = (b \<in> set tbl1 \<and> (if b \<in> set unlinked then \<exists>s. s \<noteq> sid \<and> (b, s) \<in> set rows1 else True))"
    by (simp_all add: keptIffMemberAll_def)
  have f: "filter (\<lambda>r. fst r = b \<and> snd r \<noteq> sid) rows1 = filter (\<lambda>r. snd r \<noteq> sid) (filter (\<lambda>r. fst r = b) rows1)"
    by (simp add: conj_commute)
  have m: "\<And>s. ((b, s) \<in> set rows1) = ((b, s) \<in> set (filter (\<lambda>r. fst r = b) rows1))" by simp
  show "filter (\<lambda>r. fst r = b) rows'
      = (if b \<in> set (e # unlinked) then filter (\<lambda>r. fst r = b \<and> snd r \<noteq> sid) rows
         else filter (\<lambda>r. fst r = b) rows)"
  proof (cases "b = e")
    case True
    with s1 have e1: "filter (\<lambda>r. fst r = b) rows1 = filter (\<lambda>r. fst r = b \<and> snd r \<noteq> sid) rows" by simp
    have "filter (\<lambda>r. fst r = b \<and> snd r \<noteq> sid) rows1
        = filter (\<lambda>r. snd r \<noteq> sid) (filter (\<lambda>r. fst r = b \<and> snd r \<noteq> sid) rows)"
      by (simp only: f e1)
    also have "\<dots> = filter (\<lambda>r. fst r = b \<and> snd r \<noteq> sid) rows"
      by (induction rows) auto
    finally have "filter (\<lambda>r. fst r = b \<and> snd r \<noteq> sid) rows1 = filter (\<lambda>r. fst r = b \<and> snd r \<noteq> sid) rows" .
    with r1 e1 True show ?thesis by (simp del: filter_filter)
  next
    case False
    with s1 have "filter (\<lambda>r. fst r = b) rows1 = filter (\<lambda>r. fst r = b) rows" by simp
    with r1 f False show ?thesis by (simp add: conj_commute)
  qed
  show "(b \<in> set tbl')
      = (b \<in> set tbl \<and> (if b \<in> set (e # unlinked) then \<exists>s. s \<noteq> sid \<and> (b, s) \<in> set rows else True))"
  proof (cases "b = e")
    case True
    with s1 have e1: "filter (\<lambda>r. fst r = b) rows1 = filter (\<lambda>r. fst r = b \<and> snd r \<noteq> sid) rows" by simp
    have "\<And>s. ((b, s) \<in> set rows1) = ((b, s) \<in> set rows \<and> s \<noteq> sid)"
      by (subst m, simp only: e1) auto
    with r2 s2 True show ?thesis by auto
  next
    case False
    with s1 have e1: "filter (\<lambda>r. fst r = b) rows1 = filter (\<lambda>r. fst r = b) rows" by simp
    have "\<And>s. ((b, s) \<in> set rows1) = ((b, s) \<in> set rows)"
      by (subst m, simp only: e1) auto
    with r2 s2 False show ?thesis by auto
  qed
qed

lemma unlinkArtistsLoop_rule:
  "keptIffMemberAll sid unlinked (artistsTbl db) (artistsSongs db)
     (artistsTbl (unlinkArtistsLoop sid unlinked db)) (artistsSongs (unlinkArtistsLoop sid unlinked db))"
proof (induction unlinked arbitrary: db)
  case Nil
  show ?case by (simp add: unlinkArtistsLoop_def keptIffMemberAll_def)
next
  case (Cons e unlinked)
  have unf: "unlinkArtistsLoop sid (e # unlinked) db = unlinkArtistsLoop sid unlinked (unlinkArtistStep sid e db)"
    by (simp add: unlinkArtistsLoop_def)
  from loop_compose[OF unlinkArtistStep_rule[of sid e db] Cons.IH[of "unlinkArtistStep sid e db"]]
  show ?case by (simp only: unf)
qed

lemma unlinkGenresLoop_rule:
  "keptIffMemberAll sid unlinked (genresTbl db) (genresSongs db)
     (genresTbl (unlinkGenresLoop sid unlinked db)) (genresSongs (unlinkGenresLoop sid unlinked db))"
proof (induction unlinked arbitrary: db)
  case Nil
  show ?case by (simp add: unlinkGenresLoop_def keptIffMemberAll_def)
next
  case (Cons e unlinked)
  have unf: "unlinkGenresLoop sid (e # unlinked) db = unlinkGenresLoop sid unlinked (unlinkGenreStep sid e db)"
    by (simp add: unlinkGenresLoop_def)
  from loop_compose[OF unlinkGenreStep_rule[of sid e db] Cons.IH[of "unlinkGenreStep sid e db"]]
  show ?case by (simp only: unf)
qed

text \<open>
  C2. After a step that unlinks a song from an artist, a genre or an album, the entity
  has its previous join rows without those of the song, and it is in its table exactly
  when it was there before and a join row of another song remains: it is deleted if
  and only if it then has no membership, and an entity with a remaining membership
  persists with the reduced membership. Nothing of another entity and no other table
  changes. The loops over \<open>unlinkedArtistIds\<close> and \<open>unlinkedGenreIds\<close> do this for
  every entity of their list and leave the others as they were.
\<close>

theorem unlink_step_deletes_exactly_orphans:
  "keptIffMember sid e (artistsTbl db) (artistsSongs db)
      (artistsTbl (unlinkArtistStep sid e db)) (artistsSongs (unlinkArtistStep sid e db))
   \<and> keptIffMember sid e (genresTbl db) (genresSongs db)
      (genresTbl (unlinkGenreStep sid e db)) (genresSongs (unlinkGenreStep sid e db))
   \<and> keptIffMember sid e (albumsTbl db) (albumsSongs db)
      (albumsTbl (unlinkAlbumStep sid e db)) (albumsSongs (unlinkAlbumStep sid e db))
   \<and> unlinkArtistStep sid e db
       = db\<lparr>artistsTbl := artistsTbl (unlinkArtistStep sid e db),
            artistsSongs := artistsSongs (unlinkArtistStep sid e db)\<rparr>
   \<and> unlinkGenreStep sid e db
       = db\<lparr>genresTbl := genresTbl (unlinkGenreStep sid e db),
            genresSongs := genresSongs (unlinkGenreStep sid e db)\<rparr>
   \<and> unlinkAlbumStep sid e db
       = db\<lparr>albumsTbl := albumsTbl (unlinkAlbumStep sid e db),
            albumsSongs := albumsSongs (unlinkAlbumStep sid e db)\<rparr>
   \<and> keptIffMemberAll sid unlinked (artistsTbl db) (artistsSongs db)
      (artistsTbl (unlinkArtistsLoop sid unlinked db)) (artistsSongs (unlinkArtistsLoop sid unlinked db))
   \<and> keptIffMemberAll sid unlinked (genresTbl db) (genresSongs db)
      (genresTbl (unlinkGenresLoop sid unlinked db)) (genresSongs (unlinkGenresLoop sid unlinked db))"
  using unlinkArtistStep_rule[of sid e db] unlinkGenreStep_rule[of sid e db] unlinkAlbumStep_rule[of sid e db]
    unlinkArtistStep_touches[of sid e db] unlinkGenreStep_touches[of sid e db] unlinkAlbumStep_touches[of sid e db]
    unlinkArtistsLoop_rule[of sid unlinked db] unlinkGenresLoop_rule[of sid unlinked db]
  by blast

theorem unlink_step_deletes_exactly_orphans_witness:
  "unlinkArtistsLoop 1 [7, 8] ex_store = ex_store\<lparr>artistsTbl := [7], artistsSongs := [(7, 2)]\<rparr>
   \<and> keptIffMemberAll 1 [7, 8] [7, 8] [(7, 1), (7, 2), (8, 1)] [7] [(7, 2)]
   \<and> unlinkGenreStep 1 3 ex_store = ex_store\<lparr>genresTbl := [], genresSongs := []\<rparr>
   \<and> keptIffMember 1 3 [3] [(3, 1)] [] []
   \<and> unlinkAlbumStep 1 5 ex_store = ex_store\<lparr>albumsSongs := [(5, 4)]\<rparr>
   \<and> keptIffMember 1 5 [5] [(5, 1), (5, 4)] [5] [(5, 4)]"
proof -
  have a: "unlinkArtistsLoop 1 [7, 8] ex_store = ex_store\<lparr>artistsTbl := [7], artistsSongs := [(7, 2)]\<rparr>"
    by (simp add: ex_store_def unlinkArtistsLoop_def unlinkArtistStep_def unlinkSongFromArtist_def
          getArtistSongIds_def deleteArtist_def Let_def)
  have g: "unlinkGenreStep 1 3 ex_store = ex_store\<lparr>genresTbl := [], genresSongs := []\<rparr>"
    by (simp add: ex_store_def unlinkGenreStep_def unlinkSongFromGenre_def
          getGenreSongIds_def deleteGenre_def Let_def)
  have l: "unlinkAlbumStep 1 5 ex_store = ex_store\<lparr>albumsSongs := [(5, 4)]\<rparr>"
    by (simp add: ex_store_def unlinkAlbumStep_def unlinkSongFromAlbum_def
          getAlbumSongIds_def deleteAlbum_def Let_def)
  from unlink_step_deletes_exactly_orphans[of 1 3 ex_store "[7, 8]"]
  have "keptIffMember 1 3 (genresTbl ex_store) (genresSongs ex_store)
      (genresTbl (unlinkGenreStep 1 3 ex_store)) (genresSongs (unlinkGenreStep 1 3 ex_store))"
    and "keptIffMemberAll 1 [7, 8] (artistsTbl ex_store) (artistsSongs ex_store)
      (artistsTbl (unlinkArtistsLoop 1 [7, 8] ex_store)) (artistsSongs (unlinkArtistsLoop 1 [7, 8] ex_store))"
    by blast+
  moreover from unlink_step_deletes_exactly_orphans[of 1 5 ex_store "[]"]
  have "keptIffMember 1 5 (albumsTbl ex_store) (albumsSongs ex_store)
      (albumsTbl (unlinkAlbumStep 1 5 ex_store)) (albumsSongs (unlinkAlbumStep 1 5 ex_store))"
    by blast
  ultimately show ?thesis
    unfolding a g l by (simp add: ex_store_def)
qed

section \<open>Admission queues, parse pipeline and retry supervisor\<close>

text \<open>
  \<open>src/main/parseSong/parseSong.ts\<close> is not among the sources: only its tests are
  (\<open>parseSong-concurrency.test.ts\<close>, \<open>parseSong-helpers.test.ts\<close> and the
  \<open>tryToParseSong\<close> tests). The definitions of this section follow sections 4.2 to
  4.4 and 5 of the spec. The runtime is cooperatively scheduled: a call runs without
  interruption up to its next suspension point, so each definition below is one such
  uninterrupted piece, and a scenario is a sequence of pieces.
\<close>

datatype reason = IsSongInPathsQueue | IsSongInParseQueue | IsSongAvailable | MetadataUnreadable

datatype pevent =
    Ineligible string reason
  | PipelineAttempt string nat
  | SaveSong string
  | NewSongEvent string
  | ParseSuccessful string
  | ParseError string
  | RetryIn5Seconds string
  | ParseFailed string
  | RetriesExhausted string

record pstate =
  pathsQueue :: "string set"
  parseQueue :: "string set"
  events :: "pevent list"

text \<open>Modelled from the spec: \<open>tryEnter(queue, path)\<close> of section 4.2; if the path is
  present it returns false, otherwise it inserts the path and returns true.\<close>

definition tryEnter :: "string set \<Rightarrow> string \<Rightarrow> bool \<times> string set" where
  "tryEnter queue path = (if path \<in> queue then (False, queue) else (True, insert path queue))"

text \<open>Modelled from the spec: \<open>leave(queue, path)\<close> of section 4.2, the unconditional
  removal.\<close>

definition leave :: "string set \<Rightarrow> string \<Rightarrow> string set" where
  "leave queue path = queue - {path}"

definition logEvents :: "pevent list \<Rightarrow> pstate \<Rightarrow> pstate" where
  "logEvents evs st = st\<lparr>events := events st @ evs\<rparr>"

text \<open>
  What the collaborators of one pipeline run do: the existence query of step 2
  (\<open>None\<close> when it throws), the extraction of step 3 (\<open>None\<close> when it throws,
  \<open>Some False\<close> when the tag's required section is absent), and whether the
  transaction of step 6 commits (false: something in it throws, after the persistence
  call was made, and the store rolls back).
\<close>

record run_env =
  existsQuery :: "bool option"
  extraction :: "bool option"
  transactionCommits :: bool

datatype outcome = Resolved | Rejected

text \<open>Modelled from the spec: step 1 of \<open>parseSong\<close> (section 4.3), the admission at
  the parse queue, with the "not eligible" log of a refused call.\<close>

definition parseSongEnter :: "string \<Rightarrow> pstate \<Rightarrow> bool \<times> pstate" where
  "parseSongEnter path st =
     (case tryEnter (parseQueue st) path of
        (False, q) \<Rightarrow> (False, logEvents [Ineligible path IsSongInParseQueue] st)
      | (True, q) \<Rightarrow> (True, st\<lparr>parseQueue := q\<rparr>))"

text \<open>Modelled from the spec: steps 2 to 7 and 9 of \<open>parseSong\<close> (section 4.3) for an
  admitted call: the result and the events, in order.\<close>

definition pipeline :: "string \<Rightarrow> bool \<Rightarrow> bool \<Rightarrow> run_env \<Rightarrow> outcome \<times> pevent list" where
  "pipeline path reparseToSync suppressMessages env =
     (if \<not> reparseToSync \<and> existsQuery env = None then (Rejected, [])
      else if \<not> reparseToSync \<and> existsQuery env = Some True
        then (Resolved, [Ineligible path IsSongAvailable])
      else (case extraction env of
              None \<Rightarrow> (Rejected, [ParseError path])
            | Some False \<Rightarrow> (Resolved, [Ineligible path MetadataUnreadable])
            | Some True \<Rightarrow>
                (if transactionCommits env
                 then (Resolved,
                       [SaveSong path, NewSongEvent path]
                       @ (if suppressMessages then [] else [ParseSuccessful path]))
                 else (Rejected, [SaveSong path, ParseError path]))))"

text \<open>Modelled from the spec: the rest of an admitted \<open>parseSong\<close> call, that is the
  pipeline followed by step 8, the guaranteed \<open>leave(parseQueue, path)\<close>.\<close>

definition parseSongRun :: "string \<Rightarrow> bool \<Rightarrow> bool \<Rightarrow> run_env \<Rightarrow> pstate \<Rightarrow> outcome \<times> pstate" where
  "parseSongRun path reparseToSync suppressMessages env st =
     (case pipeline path reparseToSync suppressMessages env of
        (r, evs) \<Rightarrow> (r, (logEvents evs st)\<lparr>parseQueue := leave (parseQueue st) path\<rparr>))"

text \<open>Modelled from the spec: a whole \<open>parseSong\<close> call with nothing interleaved; a
  call that is not admitted returns without an error.\<close>

definition parseSong :: "string \<Rightarrow> bool \<Rightarrow> bool \<Rightarrow> run_env \<Rightarrow> pstate \<Rightarrow> outcome \<times> pstate" where
  "parseSong path reparseToSync suppressMessages env st =
     (case parseSongEnter path st of
        (False, st') \<Rightarrow> (Resolved, st')
      | (True, st') \<Rightarrow> parseSongRun path reparseToSync suppressMessages env st')"

text \<open>Modelled from the spec: the base name by which the failure message names the file
  (section 4.4, step 4): what follows the last \<open>/\<close> of the path.\<close>

definition basename :: "string \<Rightarrow> string" where
  "basename path = rev (takeWhile (\<lambda>c. c \<noteq> CHR ''/'') (rev path))"

text \<open>The states of the retry supervisor's state machine (section 4.4); \<open>Attempting n\<close>
  is in flight, about to make or making its \<open>n\<close>-th attempt.\<close>

datatype task = Attempting nat | Succeeded | Exhausted

text \<open>Modelled from the spec: step 1 of \<open>tryToParseSong\<close> (section 4.4). A refused call
  logs and returns \<open>undefined\<close> synchronously (\<open>None\<close>); an admitted call is a
  task about to make its first attempt.\<close>

definition tryToParseSongCall :: "string \<Rightarrow> pstate \<Rightarrow> task option \<times> pstate" where
  "tryToParseSongCall path st =
     (case tryEnter (pathsQueue st) path of
        (False, q) \<Rightarrow> (None, logEvents [Ineligible path IsSongInPathsQueue] st)
      | (True, q) \<Rightarrow> (Some (Attempting 1), st\<lparr>pathsQueue := q\<rparr>))"

text \<open>Modelled from the spec: steps 2 to 5 of \<open>tryToParseSong\<close> (section 4.4) for the
  \<open>n\<close>-th attempt. \<open>maxAttempts\<close> is the number of attempts after which the
  supervisor gives up, 5 in the spec.\<close>

definition attemptStep :: "nat \<Rightarrow> string \<Rightarrow> bool \<Rightarrow> bool \<Rightarrow> run_env \<Rightarrow> nat \<Rightarrow> pstate \<Rightarrow> task \<times> pstate" where
  "attemptStep maxAttempts path reparseToSync suppressMessages env n st =
     (case parseSong path reparseToSync suppressMessages env (logEvents [PipelineAttempt path n] st) of
        (Resolved, st') \<Rightarrow> (Succeeded, st'\<lparr>pathsQueue := leave (pathsQueue st') path\<rparr>)
      | (Rejected, st') \<Rightarrow>
          (if n < maxAttempts then (Attempting (Suc n), logEvents [RetryIn5Seconds path] st')
           else (Exhausted,
                 (logEvents [ParseFailed (basename path), RetriesExhausted path] st')
                   \<lparr>pathsQueue := leave (pathsQueue st') path\<rparr>)))"

text \<open>Modelled from the spec: the attempts of an admitted \<open>tryToParseSong\<close> call
  (section 4.4, "repeat from step 2 with attempt count incremented"): the task and the
  state after at most \<open>k\<close> attempt steps, the task stopping at a terminal state;
  \<open>envs n\<close> is what the collaborators do during the \<open>n\<close>-th attempt.\<close>

fun afterAttempts :: "nat \<Rightarrow> string \<Rightarrow> bool \<Rightarrow> bool \<Rightarrow> (nat \<Rightarrow> run_env) \<Rightarrow> nat \<Rightarrow> task \<times> pstate \<Rightarrow> task \<times> pstate" where
  "afterAttempts maxAttempts path reparseToSync suppressMessages envs 0 ts = ts"
| "afterAttempts maxAttempts path reparseToSync suppressMessages envs (Suc k) ts =
     (case afterAttempts maxAttempts path reparseToSync suppressMessages envs k ts of
        (Attempting n, st) \<Rightarrow> attemptStep maxAttempts path reparseToSync suppressMessages (envs n) n st
      | (t, st) \<Rightarrow> (t, st))"

text \<open>Modelled from the spec: a whole \<open>tryToParseSong\<close> call with nothing
  interleaved. \<open>Suc maxAttempts\<close> steps are enough for the task to end (lemma
  \<open>tryToParseSong_ends\<close>).\<close>

definition tryToParseSong :: "nat \<Rightarrow> string \<Rightarrow> bool \<Rightarrow> bool \<Rightarrow> (nat \<Rightarrow> run_env) \<Rightarrow> pstate \<Rightarrow> task option \<times> pstate" where
  "tryToParseSong maxAttempts path reparseToSync suppressMessages envs st =
     (case tryToParseSongCall path st of
        (None, st') \<Rightarrow> (None, st')
      | (Some t, st') \<Rightarrow>
          (case afterAttempts maxAttempts path reparseToSync suppressMessages envs (Suc maxAttempts) (t, st') of
             (t', st'') \<Rightarrow> (Some t', st'')))"

definition saveSongCalls :: "pstate \<Rightarrow> nat" where
  "saveSongCalls st = length (filter (\<lambda>e. case e of SaveSong p \<Rightarrow> True | _ \<Rightarrow> False) (events st))"

definition parseQueueDrops :: "string \<Rightarrow> pstate \<Rightarrow> nat" where
  "parseQueueDrops path st = length (filter (\<lambda>e. e = Ineligible path IsSongInParseQueue) (events st))"

text \<open>Example data: a run in which a new song is read and stored, a run whose existence
  query throws, and the state in which nothing is in flight.\<close>

definition ex_run_ok :: run_env where
  "ex_run_ok = \<lparr>existsQuery = Some False, extraction = Some True, transactionCommits = True\<rparr>"

definition ex_run_throws :: run_env where
  "ex_run_throws = \<lparr>existsQuery = None, extraction = Some True, transactionCommits = True\<rparr>"

definition ex_idle :: pstate where
  "ex_idle = \<lparr>pathsQueue = {}, parseQueue = {}, events = []\<rparr>"

subsection \<open>Queues across a call\<close>

lemma parseSong_queues:
  "pathsQueue (snd (parseSong path r s env st)) = pathsQueue st
   \<and> parseQueue (snd (parseSong path r s env st)) = parseQueue st"
  by (auto simp: parseSong_def parseSongEnter_def parseSongRun_def tryEnter_def leave_def
        logEvents_def split: prod.splits)

lemma attemptStep_cases:
  "attemptStep maxAttempts path r s env n st = (t, st') \<Longrightarrow>
     parseQueue st' = parseQueue st
     \<and> (case t of
           Attempting m \<Rightarrow> m = Suc n \<and> n < maxAttempts \<and> pathsQueue st' = pathsQueue st
         | Succeeded \<Rightarrow> pathsQueue st' = pathsQueue st - {path}
         | Exhausted \<Rightarrow> \<not> n < maxAttempts \<and> pathsQueue st' = pathsQueue st - {path})"
  using parseSong_queues[of path r s env "logEvents [PipelineAttempt path n] st"]
  by (auto simp: attemptStep_def leave_def logEvents_def split: prod.splits outcome.splits if_splits)

lemma afterAttempts_inv:
  assumes "afterAttempts maxAttempts path r s envs k (Attempting 1, st1) = (t, st)"
  shows "parseQueue st = parseQueue st1
     \<and> (case t of
           Attempting m \<Rightarrow> m = Suc k \<and> k < maxAttempts \<or> k = 0 | _ \<Rightarrow> True)
     \<and> (case t of
           Attempting m \<Rightarrow> m = Suc k \<and> pathsQueue st = pathsQueue st1
         | _ \<Rightarrow> pathsQueue st = pathsQueue st1 - {path})"
  using assms
proof (induction k arbitrary: t st)
  case 0
  then show ?case by auto
next
  case (Suc k)
  obtain t0 st0 where prev: "afterAttempts maxAttempts path r s envs k (Attempting 1, st1) = (t0, st0)"
    by (cases "afterAttempts maxAttempts path r s envs k (Attempting 1, st1)") auto
  note ih = Suc.IH[OF prev]
  show ?case
  proof (cases t0)
    case (Attempting n)
    with prev Suc.prems have step: "attemptStep maxAttempts path r s (envs n) n st0 = (t, st)" by simp
    from attemptStep_cases[OF step] ih Attempting show ?thesis
      by (cases t) auto
  next
    case Succeeded
    with prev Suc.prems ih show ?thesis by auto
  next
    case Exhausted
    with prev Suc.prems ih show ?thesis by auto
  qed
qed

lemma tryToParseSong_ends:
  assumes "path \<notin> pathsQueue st"
  shows "fst (tryToParseSong maxAttempts path r s envs st) \<in> {Some Succeeded, Some Exhausted}
    \<and> pathsQueue (snd (tryToParseSong maxAttempts path r s envs st)) = pathsQueue st
    \<and> parseQueue (snd (tryToParseSong maxAttempts path r s envs st)) = parseQueue st"
proof -
  let ?st1 = "st\<lparr>pathsQueue := insert path (pathsQueue st)\<rparr>"
  from assms have call: "tryToParseSongCall path st = (Some (Attempting 1), ?st1)"
    by (simp add: tryToParseSongCall_def tryEnter_def)
  obtain t st' where run:
    "afterAttempts maxAttempts path r s envs (Suc maxAttempts) (Attempting 1, ?st1) = (t, st')"
    by (cases "afterAttempts maxAttempts path r s envs (Suc maxAttempts) (Attempting 1, ?st1)") auto
  from afterAttempts_inv[OF run] assms
  have "t \<in> {Succeeded, Exhausted} \<and> pathsQueue st' = pathsQueue st \<and> parseQueue st' = parseQueue st"
    by (cases t) auto
  moreover from call run have "tryToParseSong maxAttempts path r s envs st = (Some t, st')"
    unfolding tryToParseSong_def by (simp del: afterAttempts.simps)
  ultimately show ?thesis by auto
qed

text \<open>
  C4. While a first \<open>tryToParseSong\<close> call on a path is in flight (admitted at a
  state without the path, and after any number of failed attempts still attempting), a
  second call on the path returns \<open>undefined\<close> at once, logs one ineligible event
  with the reason \<open>isSongInPathsQueue\<close>, makes no persistence call and leaves both
  queues as they are.
\<close>

theorem second_tryToParseSong_is_dropped:
  assumes "path \<notin> pathsQueue st0"
    and "afterAttempts maxAttempts path r s envs k (Attempting 1, snd (tryToParseSongCall path st0))
           = (Attempting n, st)"
  shows "fst (tryToParseSongCall path st) = None
    \<and> events (snd (tryToParseSongCall path st)) = events st @ [Ineligible path IsSongInPathsQueue]
    \<and> saveSongCalls (snd (tryToParseSongCall path st)) = saveSongCalls st
    \<and> pathsQueue (snd (tryToParseSongCall path st)) = pathsQueue st
    \<and> parseQueue (snd (tryToParseSongCall path st)) = parseQueue st"
proof -
  let ?st1 = "st0\<lparr>pathsQueue := insert path (pathsQueue st0)\<rparr>"
  from assms(1) have call: "tryToParseSongCall path st0 = (Some (Attempting 1), ?st1)"
    by (simp add: tryToParseSongCall_def tryEnter_def)
  with assms(2) have "afterAttempts maxAttempts path r s envs k (Attempting 1, ?st1) = (Attempting n, st)"
    by simp
  from afterAttempts_inv[OF this] have "path \<in> pathsQueue st" by auto
  then show ?thesis
    by (simp add: tryToParseSongCall_def tryEnter_def logEvents_def saveSongCalls_def)
qed

theorem second_tryToParseSong_is_dropped_witness:
  "''/music/a.mp3'' \<notin> pathsQueue ex_idle
   \<and> fst (afterAttempts 5 ''/music/a.mp3'' False False (\<lambda>n. ex_run_throws) 2
            (Attempting 1, snd (tryToParseSongCall ''/music/a.mp3'' ex_idle))) = Attempting 3
   \<and> fst (tryToParseSongCall ''/music/a.mp3''
       (snd (afterAttempts 5 ''/music/a.mp3'' False False (\<lambda>n. ex_run_throws) 2
            (Attempting 1, snd (tryToParseSongCall ''/music/a.mp3'' ex_idle))))) = None"
proof -
  have h: "''/music/a.mp3'' \<notin> pathsQueue ex_idle" by (simp add: ex_idle_def)
  obtain st where run: "afterAttempts 5 ''/music/a.mp3'' False False (\<lambda>n. ex_run_throws) 2
            (Attempting 1, snd (tryToParseSongCall ''/music/a.mp3'' ex_idle)) = (Attempting 3, st)"
    by (simp add: tryToParseSongCall_def tryEnter_def ex_idle_def ex_run_throws_def
          attemptStep_def parseSong_def parseSongEnter_def parseSongRun_def pipeline_def leave_def
          logEvents_def eval_nat_numeral)
  from second_tryToParseSong_is_dropped[OF h run] h run show ?thesis by simp
qed

text \<open>
  C5. A first \<open>parseSong\<close> call on a new path is admitted and suspended; a second
  call on the path runs meanwhile; then the first reads, stores and ends. The second
  call resolves without an error and logs exactly one not-eligible event with the
  reason \<open>isSongInParseQueue\<close>; the two calls together make exactly one
  \<open>saveSong\<close> call.
\<close>

theorem concurrent_parseSong_saves_once:
  assumes "path \<notin> parseQueue st0"
    and "existsQuery env1 = Some False" and "extraction env1 = Some True" and "transactionCommits env1"
  shows "fst (parseSongEnter path st0)
    \<and> fst (parseSong path r2 s2 env2 (snd (parseSongEnter path st0))) = Resolved
    \<and> events (snd (parseSong path r2 s2 env2 (snd (parseSongEnter path st0))))
        = events st0 @ [Ineligible path IsSongInParseQueue]
    \<and> fst (parseSongRun path False s1 env1
              (snd (parseSong path r2 s2 env2 (snd (parseSongEnter path st0))))) = Resolved
    \<and> saveSongCalls (snd (parseSongRun path False s1 env1
              (snd (parseSong path r2 s2 env2 (snd (parseSongEnter path st0))))))
        = saveSongCalls st0 + 1
    \<and> parseQueueDrops path (snd (parseSongRun path False s1 env1
              (snd (parseSong path r2 s2 env2 (snd (parseSongEnter path st0))))))
        = parseQueueDrops path st0 + 1"
  using assms
  by (simp add: parseSongEnter_def tryEnter_def parseSong_def parseSongRun_def pipeline_def
        logEvents_def leave_def saveSongCalls_def parseQueueDrops_def)

theorem concurrent_parseSong_saves_once_witness:
  "''/music/a.mp3'' \<notin> parseQueue ex_idle
   \<and> saveSongCalls (snd (parseSongRun ''/music/a.mp3'' False False ex_run_ok
        (snd (parseSong ''/music/a.mp3'' False False ex_run_ok (snd (parseSongEnter ''/music/a.mp3'' ex_idle))))))
      = 1
   \<and> parseQueueDrops ''/music/a.mp3'' (snd (parseSongRun ''/music/a.mp3'' False False ex_run_ok
        (snd (parseSong ''/music/a.mp3'' False False ex_run_ok (snd (parseSongEnter ''/music/a.mp3'' ex_idle))))))
      = 1"
proof -
  have h: "''/music/a.mp3'' \<notin> parseQueue ex_idle" by (simp add: ex_idle_def)
  have e: "existsQuery ex_run_ok = Some False" "extraction ex_run_ok = Some True" "transactionCommits ex_run_ok"
    by (simp_all add: ex_run_ok_def)
  have z: "saveSongCalls ex_idle = 0" "parseQueueDrops ''/music/a.mp3'' ex_idle = 0"
    by (simp_all add: ex_idle_def saveSongCalls_def parseQueueDrops_def)
  from concurrent_parseSong_saves_once[OF h e, of False False ex_run_ok False] h z
  show ?thesis by simp
qed

text \<open>
  C6. An admitted call puts its path into the queue of its stage, and when the call
  ends the path is out of it again: for \<open>parseSong\<close> whatever the pipeline did
  (also when the rest of the call runs in a state that other calls have changed), for
  \<open>tryToParseSong\<close> whether an attempt succeeded or all attempts failed. The queue
  is then as it was before the call, and a new call on the path is admitted.
\<close>

theorem admitted_entries_are_released:
  "(path \<notin> parseQueue st \<longrightarrow>
      path \<in> parseQueue (snd (parseSongEnter path st))
      \<and> parseQueue (snd (parseSong path r s env st)) = parseQueue st
      \<and> fst (parseSongEnter path (snd (parseSong path r s env st))))
   \<and> path \<notin> parseQueue (snd (parseSongRun path r s env st'))
   \<and> (path \<notin> pathsQueue st \<longrightarrow>
      path \<in> pathsQueue (snd (tryToParseSongCall path st))
      \<and> fst (tryToParseSong maxAttempts path r s envs st) \<in> {Some Succeeded, Some Exhausted}
      \<and> pathsQueue (snd (tryToParseSong maxAttempts path r s envs st)) = pathsQueue st
      \<and> fst (tryToParseSongCall path (snd (tryToParseSong maxAttempts path r s envs st)))
          = Some (Attempting 1))"
proof -
  have a: "path \<notin> parseQueue st \<longrightarrow>
      path \<in> parseQueue (snd (parseSongEnter path st))
      \<and> parseQueue (snd (parseSong path r s env st)) = parseQueue st
      \<and> fst (parseSongEnter path (snd (parseSong path r s env st)))"
    using parseSong_queues[of path r s env st]
    by (auto simp: parseSongEnter_def tryEnter_def)
  have b: "path \<notin> parseQueue (snd (parseSongRun path r s env st'))"
    by (simp add: parseSongRun_def leave_def logEvents_def split: prod.splits)
  have c: "path \<notin> pathsQueue st \<longrightarrow>
      path \<in> pathsQueue (snd (tryToParseSongCall path st))
      \<and> fst (tryToParseSong maxAttempts path r s envs st) \<in> {Some Succeeded, Some Exhausted}
      \<and> pathsQueue (snd (tryToParseSong maxAttempts path r s envs st)) = pathsQueue st
      \<and> fst (tryToParseSongCall path (snd (tryToParseSong maxAttempts path r s envs st)))
          = Some (Attempting 1)"
  proof
    assume h: "path \<notin> pathsQueue st"
    from tryToParseSong_ends[OF h, of maxAttempts r s envs] h
    show "path \<in> pathsQueue (snd (tryToParseSongCall path st))
      \<and> fst (tryToParseSong maxAttempts path r s envs st) \<in> {Some Succeeded, Some Exhausted}
      \<and> pathsQueue (snd (tryToParseSong maxAttempts path r s envs st)) = pathsQueue st
      \<and> fst (tryToParseSongCall path (snd (tryToParseSong maxAttempts path r s envs st)))
          = Some (Attempting 1)"
      by (auto simp: tryToParseSongCall_def tryEnter_def)
  qed
  from a b c show ?thesis by blast
qed

theorem admitted_entries_are_released_witness:
  "''/music/a.mp3'' \<notin> parseQueue ex_idle \<and> ''/music/a.mp3'' \<notin> pathsQueue ex_idle
   \<and> fst (parseSongEnter ''/music/a.mp3'' (snd (parseSong ''/music/a.mp3'' False False ex_run_throws ex_idle)))
   \<and> fst (tryToParseSong 5 ''/music/a.mp3'' False False (\<lambda>n. ex_run_throws) ex_idle) = Some Exhausted
   \<and> fst (tryToParseSongCall ''/music/a.mp3''
            (snd (tryToParseSong 5 ''/music/a.mp3'' False False (\<lambda>n. ex_run_throws) ex_idle)))
       = Some (Attempting 1)"
proof -
  have h1: "''/music/a.mp3'' \<notin> parseQueue ex_idle" and h2: "''/music/a.mp3'' \<notin> pathsQueue ex_idle"
    by (simp_all add: ex_idle_def)
  have e: "fst (tryToParseSong 5 ''/music/a.mp3'' False False (\<lambda>n. ex_run_throws) ex_idle) = Some Exhausted"
    by (simp add: tryToParseSong_def tryToParseSongCall_def tryEnter_def ex_idle_def ex_run_throws_def
          attemptStep_def parseSong_def parseSongEnter_def parseSongRun_def pipeline_def leave_def
          logEvents_def eval_nat_numeral)
  from admitted_entries_are_released[of "''/music/a.mp3''" ex_idle False False ex_run_throws ex_idle 5
         "\<lambda>n. ex_run_throws"] h1 h2 e
  show ?thesis by simp
qed

section \<open>Tag normalizer: the duration\<close>

text \<open>
  A JavaScript number is a binary64 value: \<open>Finite r\<close> is the finite number of
  value \<open>r\<close>, next to \<open>NaN\<close> and the two infinities, which are numbers too
  (\<open>typeof\<close> gives \<^verbatim>\<open>'number'\<close> for them). The two zeros are one value here, as
  they are for \<^verbatim>\<open>===\<close>. A value of another type is \<open>undefined\<close>, \<open>null\<close>, a
  boolean, a string or an object.
\<close>

datatype jsnum = Finite rat | NaN | PosInfinity | NegInfinity

datatype jsval = JSUndefined | JSNull | JSBoolean bool | JSString string | JSObject | JSNumber jsnum

text \<open>
  The arithmetic of JavaScript numbers: the result of an operation is the binary64
  value nearest to the exact result, a tie going to the even significand.
  \<open>binaryExponent q\<close> is the \<open>e\<close> with \<open>2^e \<le> |q| < 2^(e+1)\<close>. The values with
  exponent \<open>e\<close> are the multiples of \<open>2^(e-52)\<close>; below \<open>2^(-1022)\<close> the
  subnormal values are the multiples of \<open>2^(-1074)\<close>; a rounded value of
  \<open>2^1024\<close> or more, that is one with exponent 1024 or more, is an infinity.
\<close>

definition roundHalfEven :: "rat \<Rightarrow> int" where
  "roundHalfEven r =
     (let f = \<lfloor>r\<rfloor>; d = r - of_int f
      in if d < 1 / 2 then f else if 1 / 2 < d then f + 1 else if even f then f else f + 1)"

definition binaryExponent :: "rat \<Rightarrow> int" where
  "binaryExponent q =
     (case quotient_of \<bar>q\<bar> of
        (a, b) \<Rightarrow> (let e0 = bitlen a - bitlen b
                   in if 2 powi e0 \<le> \<bar>q\<bar> then e0 else e0 - 1))"

definition roundToBinary64 :: "rat \<Rightarrow> rat" where
  "roundToBinary64 q =
     (if q = 0 then 0
      else let ulp = 2 powi (max (binaryExponent q) (- 1022) - 52)
           in sgn q * of_int (roundHalfEven (\<bar>q\<bar> / ulp)) * ulp)"

definition toBinary64 :: "rat \<Rightarrow> jsnum" where
  "toBinary64 q =
     (let r = roundToBinary64 q
      in if 1024 \<le> binaryExponent r then (if 0 < q then PosInfinity else NegInfinity) else Finite r)"


text \<open>
  \<open>Number.prototype.toFixed(2)\<close> (ECMAScript): a number that is not finite is
  printed as \<open>Number::toString\<close> prints it. For a finite \<open>x\<close>: if \<open>x < 0\<close>,
  print a minus sign and continue with \<open>-x\<close>; if \<open>x \<ge> 10^21\<close>, print it as
  \<open>Number::toString\<close> does; otherwise "let \<open>n\<close> be an integer for which
  \<open>n / 100 - x\<close> is as close to zero as possible; if there are two such \<open>n\<close>,
  pick the larger", and print \<open>n\<close> with two fraction digits. \<open>fixedHundredths x\<close>
  is that \<open>n\<close>, with the sign. A printed string is kept as what it denotes:
  \<open>FixedNotation n\<close> is the decimal numeral of \<open>n / 100\<close>, and
  \<open>NumberToString x\<close> is the string of \<open>x\<close>, which \<open>parseFloat\<close> reads back as
  \<open>x\<close>. \<open>parseFloat\<close> reads a decimal numeral as the binary64 value nearest to it.
\<close>

definition fixedHundredths :: "rat \<Rightarrow> int" where
  "fixedHundredths x = (if x < 0 then - \<lfloor>(- x) * 100 + 1 / 2\<rfloor> else \<lfloor>x * 100 + 1 / 2\<rfloor>)"

datatype numberString = FixedNotation int | NumberToString jsnum

definition toFixed2 :: "jsnum \<Rightarrow> numberString" where
  "toFixed2 x =
     (case x of
        Finite r \<Rightarrow> if 10 ^ 21 \<le> \<bar>r\<bar> then NumberToString x else FixedNotation (fixedHundredths r)
      | notFinite \<Rightarrow> NumberToString x)"

definition parseFloat :: "numberString \<Rightarrow> jsnum" where
  "parseFloat str = (case str of FixedNotation n \<Rightarrow> toBinary64 (of_int n / 100) | NumberToString x \<Rightarrow> x)"

text \<open>
  \<open>getSongDurationFromSong\<close> is read from its copy in
  \<open>parseSong-helpers.test.ts\<close>:
  \<^verbatim>\<open>if (typeof duration === 'number') { const fixedDuration = duration.toFixed(2);
  return parseFloat(fixedDuration); } return 0;\<close>
\<close>

definition getSongDurationFromSong :: "jsval \<Rightarrow> jsnum" where
  "getSongDurationFromSong duration =
     (case duration of
        JSNumber d \<Rightarrow> (let fixedDuration = toFixed2 d in parseFloat fixedDuration)
      | notANumber \<Rightarrow> Finite 0)"




text \<open>A number written in the source as the decimal \<open>d\<close>.\<close>

definition literal :: "rat \<Rightarrow> jsval" where
  "literal d = JSNumber (toBinary64 d)"

subsection \<open>Rounding to hundredths and to binary64\<close>

lemma floor_bounds: "of_int \<lfloor>r::rat\<rfloor> \<le> r \<and> r < of_int \<lfloor>r\<rfloor> + 1"
  by linarith

lemma roundHalfEven_error: "\<bar>of_int (roundHalfEven r) - r\<bar> \<le> 1 / 2"
proof -
  define f where "f = \<lfloor>r\<rfloor>"
  from floor_bounds[of r] have b: "of_int f \<le> r" "r < of_int f + 1" by (simp_all add: f_def)
  have "roundHalfEven r
      = (if r - of_int f < 1 / 2 then f else if 1 / 2 < r - of_int f then f + 1
         else if even f then f else f + 1)"
    by (simp add: roundHalfEven_def Let_def f_def)
  with b show ?thesis by (auto simp: abs_if)
qed







lemma roundHalfEven_ge:
  assumes "of_int N \<le> r" shows "N \<le> roundHalfEven r"
proof -
  from roundHalfEven_error[of r] assms
  have "(of_int N :: rat) - 1 / 2 \<le> of_int (roundHalfEven r)" by linarith
  then have "(of_int N :: rat) < of_int (roundHalfEven r) + 1" by simp
  then have "(of_int N :: rat) < of_int (roundHalfEven r + 1)" by simp
  then have "N < roundHalfEven r + 1" by (simp only: of_int_less_iff)
  then show ?thesis by simp
qed

lemma roundHalfEven_le:
  assumes "r \<le> of_int N" shows "roundHalfEven r \<le> N"
proof -
  from roundHalfEven_error[of r] assms
  have "(of_int (roundHalfEven r) :: rat) \<le> of_int N + 1 / 2" by linarith
  then have "(of_int (roundHalfEven r) :: rat) < of_int N + 1" by simp
  then have "(of_int (roundHalfEven r) :: rat) < of_int (N + 1)" by simp
  then have "roundHalfEven r < N + 1" by (simp only: of_int_less_iff)
  then show ?thesis by simp
qed










text \<open>
  The expectations of the tests of the helper in \<open>parseSong-helpers.test.ts\<close>:
  180, 180.123456, 0.009, -180.5, 123.456789 and 123.999 give 180, 180.12, 0.01,
  -180.5, 123.46 and 124.
\<close>

lemma getSongDurationFromSong_tests:
  "getSongDurationFromSong (literal 180) = toBinary64 180"
  "getSongDurationFromSong (literal (180123456 / 1000000)) = toBinary64 (18012 / 100)"
  "getSongDurationFromSong (literal (9 / 1000)) = toBinary64 (1 / 100)"
  "getSongDurationFromSong (literal (- 1805 / 10)) = toBinary64 (- 1805 / 10)"
  "getSongDurationFromSong (literal (123456789 / 1000000)) = toBinary64 (12346 / 100)"
  "getSongDurationFromSong (literal (123999 / 1000)) = toBinary64 124"
  by code_simp+




end
